theory Spec2Isabelle
  imports Complex_Main "HOL-Library.Multiset" "HOL-Library.Char_ord" "HOL-Library.List_Lexorder"
begin

section \<open>Temperature analysis: rolling baseline, anomaly band, seasonal profile\<close>

text \<open>
  A shallow embedding of the statistical core of \<^verbatim>\<open>temperature_analysis_app.py\<close>:
  \<^verbatim>\<open>calculate_moving_statistics\<close> (lines 43-57), \<^verbatim>\<open>detect_anomalies\<close> (lines 59-65),
  the evaluation of a live reading against the seasonal band (lines 229-248) and the
  seasonal aggregation (lines 255-257).

  The program is written against pandas. Its data frames are modelled row-wise, one record
  per row, in index order; the pandas operations the program calls are modelled by what
  they compute, as the library implements them:
  \<^item> a \<^verbatim>\<open>float64\<close> is a real number or NaN: \<open>None\<close> is NaN. Arithmetic is exact, so
    rounding error, overflow and the infinities are outside the model;
  \<^item> an arithmetic operation with a NaN operand is NaN, a comparison with a NaN operand
    is false;
  \<^item> reductions (\<^verbatim>\<open>mean\<close>, \<^verbatim>\<open>std\<close>, \<^verbatim>\<open>min\<close>, \<^verbatim>\<open>max\<close>, \<^verbatim>\<open>count\<close>) and the rolling
    kernels skip NaN values; \<^verbatim>\<open>std\<close> has \<^verbatim>\<open>ddof=1\<close>;
  \<^item> a missing cell of the \<^verbatim>\<open>season\<close> column is \<open>None\<close>.
\<close>

subsection \<open>float64 with NaN\<close>

type_synonym float = "real option"

definition fadd :: "float \<Rightarrow> float \<Rightarrow> float" where
  "fadd a b = (case a of None \<Rightarrow> None | Some x \<Rightarrow> (case b of None \<Rightarrow> None | Some y \<Rightarrow> Some (x + y)))"

definition fsub :: "float \<Rightarrow> float \<Rightarrow> float" where
  "fsub a b = (case a of None \<Rightarrow> None | Some x \<Rightarrow> (case b of None \<Rightarrow> None | Some y \<Rightarrow> Some (x - y)))"

definition fmul :: "float \<Rightarrow> float \<Rightarrow> float" where
  "fmul a b = (case a of None \<Rightarrow> None | Some x \<Rightarrow> (case b of None \<Rightarrow> None | Some y \<Rightarrow> Some (x * y)))"

definition fgt :: "float \<Rightarrow> float \<Rightarrow> bool" where
  "fgt a b = (case a of None \<Rightarrow> False | Some x \<Rightarrow> (case b of None \<Rightarrow> False | Some y \<Rightarrow> x > y))"

definition flt :: "float \<Rightarrow> float \<Rightarrow> bool" where
  "flt a b = (case a of None \<Rightarrow> False | Some x \<Rightarrow> (case b of None \<Rightarrow> False | Some y \<Rightarrow> x < y))"

definition fle :: "float \<Rightarrow> float \<Rightarrow> bool" where
  "fle a b = (case a of None \<Rightarrow> False | Some x \<Rightarrow> (case b of None \<Rightarrow> False | Some y \<Rightarrow> x \<le> y))"

text \<open>The values of a column that are not NaN, in order.\<close>

fun dropna :: "float list \<Rightarrow> real list" where
  "dropna [] = []"
| "dropna (None # vs) = dropna vs"
| "dropna (Some v # vs) = v # dropna vs"

subsection \<open>Data frames\<close>

text \<open>
  The uploaded table has the timestamp as its index and the columns \<^verbatim>\<open>city\<close>,
  \<^verbatim>\<open>temperature\<close> and \<^verbatim>\<open>season\<close>. \<^verbatim>\<open>calculate_moving_statistics\<close> adds four columns
  and \<^verbatim>\<open>detect_anomalies\<close> a fifth; each extension of the row record is one of these
  column sets.
\<close>

record observation =
  timestamp :: int
  city :: string
  temperature :: float
  season :: "string option"

record baselined = observation +
  rolling_mean :: float
  rolling_std :: float
  upper_bound :: float
  lower_bound :: float

record flagged = baselined +
  anomaly :: bool

datatype error = ValueError | OverflowError

subsection \<open>Reductions\<close>

text \<open>
  Mean and sample variance of the valid observations of a window or a series. With fewer
  than \<open>minp\<close> valid observations the result is NaN; the variance is also NaN unless there
  are more than \<open>ddof\<close> of them. (pandas' \<^verbatim>\<open>calc_mean\<close> and \<^verbatim>\<open>calc_var\<close>; their special
  cases for one observation and for runs of one value agree with these formulas in exact
  arithmetic.)
\<close>

definition calc_mean :: "nat \<Rightarrow> real list \<Rightarrow> float" where
  "calc_mean minp obs =
     (let nobs = length obs in
      if nobs \<ge> minp \<and> nobs > 0 then Some (sum_list obs / real nobs) else None)"

definition ssqdm :: "real list \<Rightarrow> real" where
  "ssqdm obs = (let m = sum_list obs / real (length obs) in sum_list (map (\<lambda>x. (x - m)\<^sup>2) obs))"

definition calc_var :: "nat \<Rightarrow> nat \<Rightarrow> real list \<Rightarrow> float" where
  "calc_var minp ddof obs =
     (let nobs = length obs in
      if nobs \<ge> minp \<and> nobs > ddof then Some (ssqdm obs / real (nobs - ddof)) else None)"

definition calc_std :: "nat \<Rightarrow> nat \<Rightarrow> real list \<Rightarrow> float" where
  "calc_std minp ddof obs = map_option sqrt (calc_var minp ddof obs)"

subsection \<open>Rolling windows\<close>

definition clip :: "int \<Rightarrow> int \<Rightarrow> int \<Rightarrow> int" where
  "clip x lo hi = min (max x lo) hi"

text \<open>
  pandas' \<^verbatim>\<open>FixedWindowIndexer.get_window_bounds\<close> with \<^verbatim>\<open>center=True\<close> and the default
  \<^verbatim>\<open>closed='right'\<close>: row \<open>i\<close> aggregates the rows \<open>start \<le> j < stop\<close>.
\<close>

definition get_window_bounds :: "nat \<Rightarrow> int \<Rightarrow> nat \<Rightarrow> nat \<times> nat" where
  "get_window_bounds num_values window_size i =
     (let offset = (window_size - 1) div 2;
          stop = int i + 1 + offset;
          start = stop - window_size
      in (nat (clip start 0 (int num_values)), nat (clip stop 0 (int num_values))))"

definition window_values :: "float list \<Rightarrow> int \<Rightarrow> nat \<Rightarrow> float list" where
  "window_values vals window i =
     (case get_window_bounds (length vals) window i of
        (start, stop) \<Rightarrow> take (stop - start) (drop start vals))"

text \<open>\<^verbatim>\<open>Series.rolling(window, center=True, min_periods=1)\<close> followed by \<^verbatim>\<open>.mean()\<close> or \<^verbatim>\<open>.std()\<close>.\<close>

definition min_periods :: nat where
  "min_periods = 1"

definition roll_mean :: "float list \<Rightarrow> int \<Rightarrow> float list" where
  "roll_mean vals window =
     map (\<lambda>i. calc_mean min_periods (dropna (window_values vals window i))) [0..<length vals]"

definition roll_std :: "float list \<Rightarrow> int \<Rightarrow> float list" where
  "roll_std vals window =
     map (\<lambda>i. calc_std min_periods 1 (dropna (window_values vals window i))) [0..<length vals]"

subsection \<open>\<^verbatim>\<open>calculate_moving_statistics\<close>\<close>

text \<open>
  \<^verbatim>\<open>sort_index\<close> orders the rows by timestamp. pandas leaves an index that is already
  ascending as it is; otherwise it reorders the rows by the permutation that numpy's
  \<^verbatim>\<open>argsort\<close> returns for the timestamps. The default sort kind (quicksort) is not stable,
  and the order it gives to rows with equal timestamps is a matter of numpy's
  implementation. The sorting routine is therefore a parameter of the model, and
  \<open>is_argsort\<close> says of one list of keys what every sorting routine does: it returns a
  permutation of the positions that puts the keys in ascending order.
\<close>

type_synonym argsort = "int list \<Rightarrow> nat list"

definition is_argsort :: "argsort \<Rightarrow> int list \<Rightarrow> bool" where
  "is_argsort a ks = (mset (a ks) = mset [0..<length ks] \<and> sorted (map (nth ks) (a ks)))"

definition sort_index :: "argsort \<Rightarrow> ('a observation_scheme) list \<Rightarrow> ('a observation_scheme) list" where
  "sort_index a rows =
     (let ks = map timestamp rows
      in if sorted ks then rows else map (nth rows) (a ks))"

definition add_baseline :: "observation \<Rightarrow> float \<times> float \<times> float \<times> float \<Rightarrow> baselined" where
  "add_baseline r c =
     (case c of (m, s, u, l) \<Rightarrow>
        observation.extend r
          \<lparr>rolling_mean = m, rolling_std = s, upper_bound = u, lower_bound = l\<rparr>)"

text \<open>
  Lines 46-55, on the sorted frame: \<^verbatim>\<open>rolling\<close> raises \<^verbatim>\<open>ValueError\<close> for a negative
  window, and for window 0 because \<^verbatim>\<open>min_periods=1\<close> exceeds it; a window of \<open>2^63\<close> or
  more does not fit the 64-bit integers of the window bounds and raises
  \<^verbatim>\<open>OverflowError\<close>; otherwise the four assignments add the columns, row by row.
\<close>

definition assign_rolling_columns :: "observation list \<Rightarrow> int \<Rightarrow> error + baselined list" where
  "assign_rolling_columns df window =
     (let temps = map temperature df
      in if window < int min_periods then Inl ValueError
         else if 2 ^ 63 \<le> window then Inl OverflowError
         else
           let means = roll_mean temps window;
               stds = roll_std temps window;
               uppers = map2 fadd means (map (fmul (Some 2)) stds);
               lowers = map2 fsub means (map (fmul (Some 2)) stds)
           in Inr (map2 add_baseline df (zip means (zip stds (zip uppers lowers)))))"

definition calculate_moving_statistics ::
    "argsort \<Rightarrow> observation list \<Rightarrow> int \<Rightarrow> error + baselined list" where
  "calculate_moving_statistics a city_data window =
     assign_rolling_columns (sort_index a city_data) window"

subsection \<open>\<^verbatim>\<open>detect_anomalies\<close>\<close>

definition add_anomaly :: "baselined \<Rightarrow> bool \<Rightarrow> flagged" where
  "add_anomaly r a = baselined.extend r \<lparr>anomaly = a\<rparr>"

definition detect_anomalies :: "baselined list \<Rightarrow> flagged list" where
  "detect_anomalies city_data =
     map (\<lambda>r. add_anomaly r (fgt (temperature r) (upper_bound r) \<or> flt (temperature r) (lower_bound r)))
       city_data"

subsection \<open>Evaluating the live reading (lines 229-248)\<close>

text \<open>\<^verbatim>\<open>Series.mean()\<close> and \<^verbatim>\<open>Series.std()\<close>: NaN is skipped, an empty series has mean NaN,
  fewer than two valid values have standard deviation NaN.\<close>

definition series_mean :: "float list \<Rightarrow> float" where
  "series_mean vals = calc_mean 1 (dropna vals)"

definition series_std :: "float list \<Rightarrow> float" where
  "series_std vals = calc_std 1 1 (dropna vals)"

record evaluation =
  reading :: float
  current_season :: string
  mean_temp :: float
  std_temp :: float
  lower :: float
  upper :: float
  is_normal :: bool

text \<open>
  The rows of the season are selected by comparing the \<^verbatim>\<open>season\<close> column with the label of
  the current month. The band is computed under the guard \<^verbatim>\<open>len(season_data) > 0\<close>, which
  has no \<^verbatim>\<open>else\<close>: with no row of that season the block is skipped, and no evaluation
  exists (\<open>None\<close>).
\<close>

definition evaluateReading :: "observation list \<Rightarrow> string \<Rightarrow> float \<Rightarrow> evaluation option" where
  "evaluateReading city_data season_label temp =
     (let season_data = filter (\<lambda>r. season r = Some season_label) city_data
      in if length season_data > 0 then
           let mean_t = series_mean (map temperature season_data);
               std_t = series_std (map temperature season_data);
               lower_bound_t = fsub mean_t (fmul (Some 2) std_t);
               upper_bound_t = fadd mean_t (fmul (Some 2) std_t)
           in Some \<lparr>reading = temp, current_season = season_label,
                    mean_temp = mean_t, std_temp = std_t,
                    lower = lower_bound_t, upper = upper_bound_t,
                    is_normal = (fle lower_bound_t temp \<and> fle temp upper_bound_t)\<rparr>
         else None)"

text \<open>
  What lines 241-248 put on the page, after what is there already: the season, the
  seasonal mean, the normal range, and a success or a warning box. (The texts show the
  numbers to one decimal; the elements here carry the numbers.) When the block is skipped
  the page stays as it is: there is no message and no value for the season without data.
\<close>

datatype element =
    Season_line string
  | Mean_line float
  | Range_line float float
  | Success_box
  | Warning_box

definition show_evaluation ::
    "observation list \<Rightarrow> string \<Rightarrow> float \<Rightarrow> element list \<Rightarrow> element list" where
  "show_evaluation city_data season_label temp page =
     (case evaluateReading city_data season_label temp of
        None \<Rightarrow> page
      | Some e \<Rightarrow>
          page @ [Season_line (current_season e), Mean_line (mean_temp e),
                  Range_line (lower e) (upper e),
                  if is_normal e then Success_box else Warning_box])"

subsection \<open>Seasonal aggregation (lines 255-257)\<close>

record seasonal_profile =
  temperature_mean :: float
  temperature_std :: float
  temperature_min :: float
  temperature_max :: float
  temperature_count :: nat

definition series_min :: "float list \<Rightarrow> float" where
  "series_min vals = (case dropna vals of [] \<Rightarrow> None | v # vs \<Rightarrow> Some (fold min vs v))"

definition series_max :: "float list \<Rightarrow> float" where
  "series_max vals = (case dropna vals of [] \<Rightarrow> None | v # vs \<Rightarrow> Some (fold max vs v))"

definition series_count :: "float list \<Rightarrow> nat" where
  "series_count vals = length (dropna vals)"

text \<open>\<^verbatim>\<open>round(2)\<close>: to the nearest multiple of 1/100, a tie to the even one.\<close>

definition rint :: "real \<Rightarrow> int" where
  "rint x =
     (let f = \<lfloor>x\<rfloor>; d = x - of_int f
      in if d < 1 / 2 then f else if 1 / 2 < d then f + 1 else if even f then f else f + 1)"

definition round2 :: "float \<Rightarrow> float" where
  "round2 a = map_option (\<lambda>x. of_int (rint (x * 100)) / 100) a"

text \<open>\<^verbatim>\<open>groupby('season')\<close>: one group for each label that occurs, in ascending order of
  the labels; rows whose label is missing belong to no group.\<close>

definition group_keys :: "observation list \<Rightarrow> string list" where
  "group_keys city_data = sort (remdups (List.map_filter season city_data))"

definition agg :: "float list \<Rightarrow> seasonal_profile" where
  "agg temps =
     \<lparr>temperature_mean = round2 (series_mean temps),
      temperature_std = round2 (series_std temps),
      temperature_min = round2 (series_min temps),
      temperature_max = round2 (series_max temps),
      temperature_count = series_count temps\<rparr>"

definition seasonal_stats :: "observation list \<Rightarrow> (string \<times> seasonal_profile) list" where
  "seasonal_stats city_data =
     map (\<lambda>k. (k, agg (map temperature (filter (\<lambda>r. season r = Some k) city_data))))
       (group_keys city_data)"

subsection \<open>Frames as objects\<close>

text \<open>
  A Python name holds a reference to a frame object, and an assignment to a column changes
  that object for every holder of the reference. The store lists the frame objects by
  address. \<^verbatim>\<open>sort_index()\<close> and \<^verbatim>\<open>copy()\<close> each make a new object; the column assignments
  of the two functions write to the object their local name \<^verbatim>\<open>city_data\<close> then refers to.
  The program passes the loaded table to \<^verbatim>\<open>calculate_moving_statistics\<close> (line 111) and
  its result to \<^verbatim>\<open>detect_anomalies\<close> (line 163); the result is \<open>None\<close> for an address
  that holds no frame of that kind.
\<close>

datatype frame =
    Observations "observation list"
  | Baselined "baselined list"
  | Flagged "flagged list"

type_synonym heap = "frame list"

definition alloc :: "heap \<Rightarrow> frame \<Rightarrow> nat \<times> heap" where
  "alloc h f = (length h, h @ [f])"

definition calculate_moving_statistics_obj ::
    "argsort \<Rightarrow> nat \<Rightarrow> int \<Rightarrow> heap \<Rightarrow> ((error + nat) \<times> heap) option" where
  "calculate_moving_statistics_obj a ref window h =
     (if ref < length h then
        (case h ! ref of
           Observations rows \<Rightarrow>
             (case alloc h (Observations (sort_index a rows)) of (sorted_ref, h1) \<Rightarrow>
              case alloc h1 (h1 ! sorted_ref) of (copy_ref, h2) \<Rightarrow>
              case h2 ! copy_ref of
                Observations df \<Rightarrow>
                  (case assign_rolling_columns df window of
                     Inl e \<Rightarrow> Some (Inl e, h2)
                   | Inr out \<Rightarrow> Some (Inr copy_ref, h2[copy_ref := Baselined out]))
              | _ \<Rightarrow> None)
         | _ \<Rightarrow> None)
      else None)"

definition detect_anomalies_obj :: "nat \<Rightarrow> heap \<Rightarrow> (nat \<times> heap) option" where
  "detect_anomalies_obj ref h =
     (if ref < length h then
        (case h ! ref of
           Baselined rows \<Rightarrow>
             (case alloc h (h ! ref) of (copy_ref, h1) \<Rightarrow>
              case h1 ! copy_ref of
                Baselined df \<Rightarrow> Some (copy_ref, h1[copy_ref := Flagged (detect_anomalies df)])
              | _ \<Rightarrow> None)
         | _ \<Rightarrow> None)
      else None)"

subsection \<open>The centered window of the specification\<close>

text \<open>
  The rows \<open>j\<close> of a series with \<open>i - floor(W/2) \<le> j \<le> i + ceil(W/2) - 1\<close>, clipped to the
  series by ranging over its indices only.
\<close>

definition centered_window :: "'a list \<Rightarrow> int \<Rightarrow> nat \<Rightarrow> 'a list" where
  "centered_window vals W i =
     map (nth vals)
       (filter (\<lambda>j. int i - \<lfloor>real_of_int W / 2\<rfloor> \<le> int j \<and> int j \<le> int i + \<lceil>real_of_int W / 2\<rceil> - 1)
          [0..<length vals])"

text \<open>The valid temperatures that row \<open>i\<close> of the sorted series aggregates.\<close>

definition row_window :: "argsort \<Rightarrow> observation list \<Rightarrow> int \<Rightarrow> nat \<Rightarrow> real list" where
  "row_window a s W i = dropna (window_values (map temperature (sort_index a s)) W i)"

subsection \<open>Sample data\<close>

text \<open>
  A sorting routine for the examples: insertion sort on the positions, which keeps the
  input order of equal keys.
\<close>

definition stable_argsort :: argsort where
  "stable_argsort ks = sort_key (nth ks) [0..<length ks]"

definition obs :: "int \<Rightarrow> string \<Rightarrow> float \<Rightarrow> observation" where
  "obs t label v = \<lparr>timestamp = t, city = ''Berlin'', temperature = v, season = Some label\<rparr>"

text \<open>Two readings, given latest first.\<close>

definition two_days :: "observation list" where
  "two_days = [obs 2 ''winter'' (Some 2), obs 1 ''winter'' (Some 0)]"

text \<open>Three days at the same temperature.\<close>

definition three_constant :: "observation list" where
  "three_constant =
     [obs 1 ''winter'' (Some 5), obs 2 ''winter'' (Some 5), obs 3 ''winter'' (Some 5)]"

text \<open>Two readings share a timestamp; the same rows with the tied pair exchanged.\<close>

definition tied_a :: "observation list" where
  "tied_a = [obs 1 ''winter'' (Some 0), obs 1 ''winter'' (Some 10), obs 2 ''winter'' (Some 20)]"

definition tied_b :: "observation list" where
  "tied_b = [obs 1 ''winter'' (Some 10), obs 1 ''winter'' (Some 0), obs 2 ''winter'' (Some 20)]"

text \<open>A row with a given temperature and band, as \<^verbatim>\<open>detect_anomalies\<close> receives it.\<close>

definition banded :: "float \<Rightarrow> float \<Rightarrow> float \<Rightarrow> baselined" where
  "banded v u l =
     observation.extend (obs 1 ''winter'' v)
       \<lparr>rolling_mean = None, rolling_std = None, upper_bound = u, lower_bound = l\<rparr>"

text \<open>Three winter days with mean 15 and standard deviation 5, and one summer day.\<close>

definition winter_days :: "observation list" where
  "winter_days =
     [obs 1 ''winter'' (Some 10), obs 2 ''winter'' (Some 15), obs 3 ''winter'' (Some 20),
      obs 4 ''summer'' (Some 30)]"

section \<open>Properties\<close>

subsection \<open>The sorted frame\<close>

lemma is_argsort_stable: "is_argsort stable_argsort ks"
  by (simp add: is_argsort_def stable_argsort_def)

lemma sort_index_sorted_id: "sorted (map timestamp rows) \<Longrightarrow> sort_index a rows = rows"
  by (simp add: sort_index_def)

lemma sort_index_mset:
  assumes "is_argsort a (map timestamp rows)"
  shows "mset (sort_index a rows) = mset rows"
proof (cases "sorted (map timestamp rows)")
  case True
  then show ?thesis by (simp add: sort_index_def)
next
  case False
  let ?p = "a (map timestamp rows)"
  from assms have p: "mset ?p = mset [0..<length rows]"
    by (simp add: is_argsort_def)
  have "mset (map (nth rows) ?p) = image_mset (nth rows) (mset ?p)"
    by simp
  also have "\<dots> = image_mset (nth rows) (mset [0..<length rows])"
    by (simp only: p)
  also have "\<dots> = mset (map (nth rows) [0..<length rows])"
    by simp
  also have "\<dots> = mset rows"
    by (simp only: map_nth)
  finally show ?thesis
    using False by (simp add: sort_index_def)
qed

lemma sort_index_sorted:
  assumes "is_argsort a (map timestamp rows)"
  shows "sorted (map timestamp (sort_index a rows))"
proof (cases "sorted (map timestamp rows)")
  case True
  then show ?thesis by (simp add: sort_index_def)
next
  case False
  let ?p = "a (map timestamp rows)"
  from assms have p: "mset ?p = mset [0..<length rows]"
    and s: "sorted (map (nth (map timestamp rows)) ?p)"
    by (simp_all add: is_argsort_def)
  from p have "set ?p = set [0..<length rows]"
    by (rule mset_eq_setD)
  then have lt: "\<forall>i\<in>set ?p. i < length rows"
    by simp
  have "map timestamp (map (nth rows) ?p) = map (nth (map timestamp rows)) ?p"
    unfolding map_map by (rule map_cong) (use lt in auto)
  with s have "sorted (map timestamp (map (nth rows) ?p))"
    by (simp only:)
  moreover have "sort_index a rows = map (nth rows) ?p"
    using False by (simp add: sort_index_def)
  ultimately show ?thesis
    by (simp only:)
qed

lemma length_sort_index:
  assumes "is_argsort a (map timestamp rows)"
  shows "length (sort_index a rows) = length rows"
  using sort_index_mset [OF assms] by (rule mset_eq_length)

lemma set_sort_index:
  assumes "is_argsort a (map timestamp rows)"
  shows "set (sort_index a rows) = set rows"
  using sort_index_mset [OF assms] by (rule mset_eq_setD)

subsection \<open>Shape of the result\<close>

lemma length_roll_mean: "length (roll_mean vals W) = length vals"
  by (simp add: roll_mean_def)

lemma length_roll_std: "length (roll_std vals W) = length vals"
  by (simp add: roll_std_def)

lemmas kernel_defs = window_values_def get_window_bounds_def clip_def calc_mean_def
  calc_std_def calc_var_def ssqdm_def min_periods_def power2_eq_square

lemma arc_window: "assign_rolling_columns df W = Inr out \<Longrightarrow> 1 \<le> W \<and> W < 2 ^ 63"
  by (simp add: assign_rolling_columns_def min_periods_def Let_def split: if_splits)

lemma cms_overflow: "2 ^ 63 \<le> W \<Longrightarrow> calculate_moving_statistics a s W = Inl OverflowError"
  by (simp add: calculate_moving_statistics_def assign_rolling_columns_def min_periods_def Let_def)

lemma arc_Inr:
  assumes "1 \<le> W" and "W < 2 ^ 63"
  shows "assign_rolling_columns df W =
     Inr (map (\<lambda>i. add_baseline (df ! i)
            (let m = calc_mean 1 (dropna (window_values (map temperature df) W i));
                 sd = calc_std 1 1 (dropna (window_values (map temperature df) W i))
             in (m, sd, fadd m (fmul (Some 2) sd), fsub m (fmul (Some 2) sd))))
          [0..<length df])"
proof -
  let ?t = "map temperature df"
  have "map2 add_baseline df
          (zip (roll_mean ?t W)
            (zip (roll_std ?t W)
              (zip (map2 fadd (roll_mean ?t W) (map (fmul (Some 2)) (roll_std ?t W)))
                   (map2 fsub (roll_mean ?t W) (map (fmul (Some 2)) (roll_std ?t W))))))
        = map (\<lambda>i. add_baseline (df ! i)
            (let m = calc_mean 1 (dropna (window_values ?t W i));
                 sd = calc_std 1 1 (dropna (window_values ?t W i))
             in (m, sd, fadd m (fmul (Some 2) sd), fsub m (fmul (Some 2) sd))))
          [0..<length df]"
    by (rule nth_equalityI)
       (simp_all add: length_roll_mean length_roll_std roll_mean_def roll_std_def min_periods_def Let_def)
  with assms show ?thesis
    by (simp add: assign_rolling_columns_def min_periods_def Let_def)
qed

lemma cms_Inr:
  assumes "1 \<le> W" and "W < 2 ^ 63" and "is_argsort a (map timestamp s)"
  shows "calculate_moving_statistics a s W =
     Inr (map (\<lambda>i. add_baseline (sort_index a s ! i)
            (let m = calc_mean 1 (row_window a s W i); sd = calc_std 1 1 (row_window a s W i)
             in (m, sd, fadd m (fmul (Some 2) sd), fsub m (fmul (Some 2) sd))))
          [0..<length s])"
  by (simp add: calculate_moving_statistics_def arc_Inr [OF assms(1,2)]
      length_sort_index [OF assms(3)] row_window_def)

lemma truncate_add_baseline [simp]: "observation.truncate (add_baseline r c) = r"
  by (cases c) (simp add: add_baseline_def observation.defs)

lemma add_baseline_sel [simp]:
  "rolling_mean (add_baseline r (m, sd, u, l)) = m"
  "rolling_std (add_baseline r (m, sd, u, l)) = sd"
  "upper_bound (add_baseline r (m, sd, u, l)) = u"
  "lower_bound (add_baseline r (m, sd, u, l)) = l"
  "temperature (add_baseline r c) = temperature r"
  "timestamp (add_baseline r c) = timestamp r"
  "city (add_baseline r c) = city r"
  "season (add_baseline r c) = season r"
  by (simp_all add: add_baseline_def observation.defs split: prod.splits)

subsection \<open>The window of a row\<close>

lemma floor_half: "\<lfloor>real_of_int W / 2\<rfloor> = W div 2"
  by (metis floor_divide_of_int_eq of_int_numeral)

lemma ceiling_half: "\<lceil>real_of_int W / 2\<rceil> = (W + 1) div 2"
proof -
  have "\<lceil>real_of_int W / 2\<rceil> = - \<lfloor>real_of_int (- W) / 2\<rfloor>"
    by (simp add: ceiling_def)
  also have "\<dots> = - ((- W) div 2)"
    using floor_half [of "- W"] by simp
  also have "\<dots> = (W + 1) div 2"
    by presburger
  finally show ?thesis .
qed

lemma take_drop_nth: "b \<le> length xs \<Longrightarrow> take (b - a) (drop a xs) = map (nth xs) [a..<b]"
  by (rule nth_equalityI) auto

lemma filter_upt_range:
  "b \<le> n \<Longrightarrow> filter (\<lambda>j. a \<le> j \<and> j < b) [0..<n] = [a..<b]"
  by (rule sorted_distinct_set_unique) (auto simp: sorted_wrt_filter)

lemma clip_range_iff:
  "j < n \<Longrightarrow> (nat (clip A 0 (int n)) \<le> j \<and> j < nat (clip S 0 (int n))) = (A \<le> int j \<and> int j \<le> S - 1)"
  unfolding clip_def by (simp add: min_def max_def) linarith

lemma window_values_centered:
  assumes "1 \<le> W" and "i < length vals"
  shows "window_values vals W i = centered_window vals W i"
proof -
  define n where "n = length vals"
  define A where "A = int i - W div 2"
  define S where "S = int i + (W + 1) div 2"
  define a where "a = nat (clip A 0 (int n))"
  define b where "b = nat (clip S 0 (int n))"
  have S: "int i + 1 + (W - 1) div 2 = S" unfolding S_def by presburger
  have A: "S - W = A" unfolding S_def A_def by presburger
  have b: "b \<le> n" by (simp add: b_def clip_def)
  have "filter (\<lambda>j. A \<le> int j \<and> int j \<le> S - 1) [0..<n]
        = filter (\<lambda>j. a \<le> j \<and> j < b) [0..<n]"
    by (rule filter_cong) (auto simp: clip_range_iff a_def b_def)
  also have "\<dots> = [a..<b]" using b by (rule filter_upt_range)
  finally have "centered_window vals W i = map (nth vals) [a..<b]"
    by (simp add: centered_window_def floor_half ceiling_half n_def A_def S_def)
  moreover have "window_values vals W i = take (b - a) (drop a vals)"
    by (simp add: window_values_def get_window_bounds_def a_def b_def n_def Let_def S A)
  ultimately show ?thesis using b by (simp add: take_drop_nth n_def)
qed

lemma sort_two_days:
  "sort_index stable_argsort two_days = [obs 1 ''winter'' (Some 0), obs 2 ''winter'' (Some 2)]"
  by (simp add: sort_index_def stable_argsort_def two_days_def obs_def upt_rec)

lemma centered_window_two_days: "centered_window [Some (0::real), Some 2] 3 0 = [Some 0, Some 2]"
  by (simp add: centered_window_def floor_half ceiling_half upt_rec)

text \<open>
  Claim C1, as stated, fails for window sizes that do not fit a 64-bit integer: there the
  program raises and computes nothing.
\<close>

theorem rolling_window_centered_counterexample:
  "calculate_moving_statistics stable_argsort two_days 9223372036854775808 = Inl OverflowError"
  by (simp add: calculate_moving_statistics_def assign_rolling_columns_def min_periods_def Let_def)

text \<open>
  Claim C1, amended. For a window size \<open>1 \<le> W < 2^63\<close>, \<^verbatim>\<open>calculate_moving_statistics\<close>
  returns one row per input row, and the rolling mean and the rolling standard deviation
  of row \<open>i\<close> are the mean and the sample standard deviation of the temperatures of the
  sorted series at the indices \<open>i - floor(W/2) \<dots> i + ceil(W/2) - 1\<close> that lie within the
  series.
\<close>

theorem rolling_window_centered:
  assumes "1 \<le> W" and "W < 2 ^ 63" and "is_argsort a (map timestamp series)"
  shows "\<exists>out. calculate_moving_statistics a series W = Inr out \<and> length out = length series \<and>
     (\<forall>i<length series.
        rolling_mean (out ! i) =
          calc_mean 1 (dropna (centered_window (map temperature (sort_index a series)) W i)) \<and>
        rolling_std (out ! i) =
          calc_std 1 1 (dropna (centered_window (map temperature (sort_index a series)) W i)))"
proof -
  have "row_window a series W i
      = dropna (centered_window (map temperature (sort_index a series)) W i)"
    if "i < length series" for i
    using that assms(1)
    by (simp add: row_window_def window_values_centered length_sort_index [OF assms(3)])
  then show ?thesis
    by (simp add: cms_Inr [OF assms] Let_def)
qed

theorem rolling_window_centered_witness:
  "(1::int) \<le> 3 \<and> (3::int) < 2 ^ 63 \<and> is_argsort stable_argsort (map timestamp two_days) \<and>
   (\<exists>out. calculate_moving_statistics stable_argsort two_days 3 = Inr out \<and> length out = 2 \<and>
      rolling_mean (out ! 0) = Some 1 \<and> rolling_std (out ! 0) = Some (sqrt 2))"
proof -
  have h: "(1::int) \<le> 3" "(3::int) < 2 ^ 63" by simp_all
  note s = is_argsort_stable [of "map timestamp two_days"]
  from rolling_window_centered [OF h s]
  obtain out where out: "calculate_moving_statistics stable_argsort two_days 3 = Inr out"
      "length out = length two_days"
      "\<forall>i<length two_days.
        rolling_mean (out ! i) =
          calc_mean 1 (dropna (centered_window
            (map temperature (sort_index stable_argsort two_days)) 3 i)) \<and>
        rolling_std (out ! i) =
          calc_std 1 1 (dropna (centered_window
            (map temperature (sort_index stable_argsort two_days)) 3 i))"
    by blast
  have n: "length two_days = 2" by (simp add: two_days_def)
  have t: "map temperature (sort_index stable_argsort two_days) = [Some 0, Some 2]"
    by (simp add: sort_two_days obs_def)
  from out(3) n
  have "rolling_mean (out ! 0) = calc_mean 1 (dropna (centered_window [Some 0, Some 2] 3 0))"
    "rolling_std (out ! 0) = calc_std 1 1 (dropna (centered_window [Some 0, Some 2] 3 0))"
    unfolding t by simp_all
  then have "rolling_mean (out ! 0) = Some 1" "rolling_std (out ! 0) = Some (sqrt 2)"
    unfolding centered_window_two_days
    by (simp_all add: calc_mean_def calc_std_def calc_var_def ssqdm_def power2_eq_square)
  with out(1,2) n h s show ?thesis by auto
qed

subsection \<open>One output row per observation\<close>

text \<open>
  Claim C5, as stated, fails for window sizes that do not fit a 64-bit integer: the
  program raises and returns no rows.
\<close>

theorem length_preservation_counterexample:
  "calculate_moving_statistics stable_argsort winter_days 9223372036854775808 = Inl OverflowError"
  by (simp add: calculate_moving_statistics_def assign_rolling_columns_def min_periods_def Let_def)

text \<open>
  Claim C5, amended. For a series of length \<open>N\<close> and a window size \<open>1 \<le> W < 2^63\<close>,
  \<^verbatim>\<open>calculate_moving_statistics\<close> returns \<open>N\<close> rows, in ascending order of timestamp;
  without their new columns they are the input observations, each exactly once, with
  timestamp, city, temperature and season as given. The empty series gives the empty
  result, not an error.
\<close>

theorem length_preservation:
  assumes "1 \<le> W" and "W < 2 ^ 63" and "is_argsort a (map timestamp series)"
  shows "\<exists>out. calculate_moving_statistics a series W = Inr out \<and>
           length out = length series \<and>
           mset (map observation.truncate out) = mset series \<and>
           sorted (map timestamp out) \<and>
           (series = [] \<longrightarrow> out = [])"
proof -
  define out where "out = map (\<lambda>i. add_baseline (sort_index a series ! i)
            (let m = calc_mean 1 (row_window a series W i);
                 sd = calc_std 1 1 (row_window a series W i)
             in (m, sd, fadd m (fmul (Some 2) sd), fsub m (fmul (Some 2) sd))))
          [0..<length series]"
  note len_sorted = length_sort_index [OF assms(3)]
  have res: "calculate_moving_statistics a series W = Inr out"
    unfolding out_def by (rule cms_Inr [OF assms])
  have len: "length out = length series"
    by (simp add: out_def)
  have tr: "map observation.truncate out = sort_index a series"
    by (rule nth_equalityI) (simp_all add: out_def len_sorted)
  have ts: "map timestamp out = map timestamp (sort_index a series)"
    by (rule nth_equalityI) (simp_all add: out_def len_sorted)
  from tr sort_index_mset [OF assms(3)]
  have ms: "mset (map observation.truncate out) = mset series"
    by (simp only:)
  from ts sort_index_sorted [OF assms(3)]
  have so: "sorted (map timestamp out)"
    by (simp only:)
  from len have emp: "series = [] \<longrightarrow> out = []"
    by auto
  from res len ms so emp show ?thesis
    by blast
qed

theorem length_preservation_witness:
  "(1::int) \<le> 30 \<and> (30::int) < 2 ^ 63 \<and> is_argsort stable_argsort (map timestamp two_days) \<and>
   (\<exists>out. calculate_moving_statistics stable_argsort two_days 30 = Inr out \<and>
           length out = 2 \<and>
           mset (map observation.truncate out) = mset two_days \<and>
           sorted (map timestamp out))"
proof -
  have h: "(1::int) \<le> 30" "(30::int) < 2 ^ 63" by simp_all
  note s = is_argsort_stable [of "map timestamp two_days"]
  have n: "length two_days = 2" by (simp add: two_days_def)
  from length_preservation [OF h s] n h s show ?thesis
    by auto
qed

subsection \<open>Constant series\<close>

lemma centered_window_subset: "set (centered_window vals W i) \<subseteq> set vals"
  by (auto simp: centered_window_def)

lemma centered_window_self:
  assumes "1 \<le> W" and "i < length vals"
  shows "vals ! i \<in> set (centered_window vals W i)"
proof -
  have "0 \<le> W div 2" "1 \<le> (W + 1) div 2" using assms(1) by presburger+
  then have "int i - W div 2 \<le> int i \<and> int i \<le> int i + (W + 1) div 2 - 1" by linarith
  with assms(2) show ?thesis
    by (auto simp: centered_window_def floor_half ceiling_half)
qed

lemma dropna_replicate: "dropna (replicate k (Some c)) = replicate k c"
  by (induction k) simp_all

lemma calc_mean_replicate: "0 < k \<Longrightarrow> calc_mean 1 (replicate k c) = Some c"
  by (simp add: calc_mean_def sum_list_replicate)

lemma ssqdm_replicate: "0 < k \<Longrightarrow> ssqdm (replicate k c) = 0"
  by (simp add: ssqdm_def sum_list_replicate Let_def)

lemma calc_std_replicate: "calc_std 1 1 (replicate k c) = (if 2 \<le> k then Some 0 else None)"
  by (simp add: calc_std_def calc_var_def ssqdm_replicate)

lemma window_values_subset: "set (window_values vals W i) \<subseteq> set vals"
proof -
  obtain a b where ab: "get_window_bounds (length vals) W i = (a, b)" by (cases "get_window_bounds (length vals) W i")
  have "set (take (b - a) (drop a vals)) \<subseteq> set (drop a vals)" by (rule set_take_subset)
  also have "\<dots> \<subseteq> set vals" by (rule set_drop_subset)
  finally show ?thesis by (simp add: window_values_def ab)
qed

lemma constant_window:
  assumes "\<forall>r\<in>set series. temperature r = Some c"
    and "is_argsort a (map timestamp series)"
  shows "row_window a series W i = replicate (length (row_window a series W i)) c"
    and "length (row_window a series W i) = length (window_values (map temperature (sort_index a series)) W i)"
proof -
  let ?w = "window_values (map temperature (sort_index a series)) W i"
  have "set ?w \<subseteq> set (map temperature (sort_index a series))"
    by (rule window_values_subset)
  also have "\<dots> \<subseteq> {Some c}" using assms(1) by (auto simp: set_sort_index [OF assms(2)])
  finally have "\<forall>v\<in>set ?w. v = Some c" by auto
  then have w: "?w = replicate (length ?w) (Some c)"
    by (simp add: replicate_length_same)
  have "row_window a series W i = dropna (replicate (length ?w) (Some c))"
    unfolding row_window_def using w by simp
  then have r: "row_window a series W i = replicate (length ?w) c"
    by (simp add: dropna_replicate)
  then show "length (row_window a series W i) = length ?w" by simp
  with r show "row_window a series W i = replicate (length (row_window a series W i)) c" by simp
qed

lemma window_nonempty:
  assumes "1 \<le> W" and "i < length vals"
  shows "0 < length (window_values vals W i)"
  using centered_window_self [OF assms] window_values_centered [OF assms]
  by (cases "window_values vals W i") auto

lemma centered_window_two:
  assumes "3 \<le> W" and "2 \<le> length vals" and "i < length vals"
  shows "2 \<le> length (centered_window vals W i)"
proof -
  let ?P = "\<lambda>j. int i - W div 2 \<le> int j \<and> int j \<le> int i + (W + 1) div 2 - 1"
  have w: "1 \<le> W div 2" "2 \<le> (W + 1) div 2" using assms(1) by presburger+
  define i' where "i' = (if i = 0 then 1 else i - 1)"
  have i': "i' < length vals" "i' \<noteq> i" "?P i'" "?P i"
    using assms(2,3) w by (auto simp: i'_def)
  have "card {i, i'} \<le> card ({j. ?P j} \<inter> set [0..<length vals])"
    using i' assms(3) by (intro card_mono) auto
  also have "\<dots> = length (filter ?P [0..<length vals])"
    by (simp add: distinct_length_filter)
  finally show ?thesis using i'(2)
    by (simp add: centered_window_def floor_half ceiling_half)
qed

lemma cms_three_constant:
  "calculate_moving_statistics a three_constant 1 =
     Inr [observation.extend (obs 1 ''winter'' (Some 5))
            \<lparr>rolling_mean = Some 5, rolling_std = None, upper_bound = None, lower_bound = None\<rparr>,
          observation.extend (obs 2 ''winter'' (Some 5))
            \<lparr>rolling_mean = Some 5, rolling_std = None, upper_bound = None, lower_bound = None\<rparr>,
          observation.extend (obs 3 ''winter'' (Some 5))
            \<lparr>rolling_mean = Some 5, rolling_std = None, upper_bound = None, lower_bound = None\<rparr>]"
proof -
  have s: "sort_index a three_constant = three_constant"
    by (rule sort_index_sorted_id) (simp add: three_constant_def obs_def)
  have t: "map temperature three_constant = [Some 5, Some 5, Some 5]"
    by (simp add: three_constant_def obs_def)
  have m: "roll_mean [Some 5, Some 5, Some 5] 1 = [Some 5, Some 5, Some 5]"
    by (simp add: roll_mean_def kernel_defs upt_rec)
  have d: "roll_std [Some 5, Some 5, Some 5] 1 = [None, None, None]"
    by (simp add: roll_std_def kernel_defs upt_rec)
  show ?thesis
    unfolding calculate_moving_statistics_def assign_rolling_columns_def s t Let_def m d
    by (simp add: min_periods_def three_constant_def add_baseline_def fadd_def fsub_def fmul_def)
qed

text \<open>
  Claim C2, as stated, fails: the standard deviation of a window that holds a single
  observation is NaN, and so are both bounds. With window size 1 that is every row, the
  interior ones too. And a window size that does not fit a 64-bit integer yields nothing:
  the program raises.
\<close>

theorem constant_series_counterexample:
  "calculate_moving_statistics stable_argsort three_constant 1 =
     Inr [observation.extend (obs 1 ''winter'' (Some 5))
            \<lparr>rolling_mean = Some 5, rolling_std = None, upper_bound = None, lower_bound = None\<rparr>,
          observation.extend (obs 2 ''winter'' (Some 5))
            \<lparr>rolling_mean = Some 5, rolling_std = None, upper_bound = None, lower_bound = None\<rparr>,
          observation.extend (obs 3 ''winter'' (Some 5))
            \<lparr>rolling_mean = Some 5, rolling_std = None, upper_bound = None, lower_bound = None\<rparr>] \<and>
   calculate_moving_statistics stable_argsort three_constant 9223372036854775808 = Inl OverflowError"
  by (rule conjI, rule cms_three_constant, rule cms_overflow) simp

text \<open>
  Claim C2, amended. For a series whose temperatures all equal \<open>c\<close> and a window size
  \<open>1 \<le> W < 2^63\<close>: the rolling mean is \<open>c\<close> in every row; in a row whose clipped window
  holds at least two observations the rolling standard deviation is 0 and both bounds are
  \<open>c\<close>; in a row whose window holds one observation the standard deviation and both bounds
  are NaN. With \<open>W \<ge> 3\<close> and at least two observations every row is of the first kind. No
  row is flagged by \<^verbatim>\<open>detect_anomalies\<close>.
\<close>

theorem constant_series:
  assumes "1 \<le> W" and "W < 2 ^ 63" and "is_argsort a (map timestamp series)"
    and "\<forall>r\<in>set series. temperature r = Some c"
  shows "\<exists>out. calculate_moving_statistics a series W = Inr out \<and> length out = length series \<and>
     (\<forall>i<length series.
        rolling_mean (out ! i) = Some c \<and>
        (if 2 \<le> length (centered_window (sort_index a series) W i)
         then rolling_std (out ! i) = Some 0 \<and> upper_bound (out ! i) = Some c \<and> lower_bound (out ! i) = Some c
         else rolling_std (out ! i) = None \<and> upper_bound (out ! i) = None \<and> lower_bound (out ! i) = None)) \<and>
     (3 \<le> W \<and> 2 \<le> length series \<longrightarrow>
        (\<forall>i<length series. rolling_std (out ! i) = Some 0 \<and>
            upper_bound (out ! i) = Some c \<and> lower_bound (out ! i) = Some c)) \<and>
     (\<forall>r\<in>set (detect_anomalies out). \<not> anomaly r)"
proof -
  define out where "out = map (\<lambda>i. add_baseline (sort_index a series ! i)
            (let m = calc_mean 1 (row_window a series W i); sd = calc_std 1 1 (row_window a series W i)
             in (m, sd, fadd m (fmul (Some 2) sd), fsub m (fmul (Some 2) sd))))
          [0..<length series]"
  have res: "calculate_moving_statistics a series W = Inr out"
    unfolding out_def by (rule cms_Inr [OF assms(1,2,3)])
  note len_sorted = length_sort_index [OF assms(3)]
  have len: "length out = length series"
    by (simp add: out_def)
  have k: "length (row_window a series W i) = length (centered_window (sort_index a series) W i)"
       "0 < length (row_window a series W i)" if "i < length series" for i
  proof -
    have "length (row_window a series W i) = length (window_values (map temperature (sort_index a series)) W i)"
      by (rule constant_window(2) [OF assms(4,3)])
    moreover have "0 < length (window_values (map temperature (sort_index a series)) W i)"
      using that by (intro window_nonempty assms(1)) (simp add: len_sorted)
    moreover have "window_values (map temperature (sort_index a series)) W i
        = centered_window (map temperature (sort_index a series)) W i"
      using that by (intro window_values_centered assms(1)) (simp add: len_sorted)
    ultimately show "length (row_window a series W i) = length (centered_window (sort_index a series) W i)"
       "0 < length (row_window a series W i)"
      by (simp_all add: centered_window_def)
  qed
  have m: "calc_mean 1 (row_window a series W i) = Some c" if "i < length series" for i
    using constant_window(1) [OF assms(4,3), of W i] k(2) [OF that] calc_mean_replicate by metis
  have sd: "calc_std 1 1 (row_window a series W i)
      = (if 2 \<le> length (centered_window (sort_index a series) W i) then Some 0 else None)"
    if "i < length series" for i
    using constant_window(1) [OF assms(4,3), of W i] k(1) [OF that] calc_std_replicate by metis
  have rows: "rolling_mean (out ! i) = Some c \<and>
        (if 2 \<le> length (centered_window (sort_index a series) W i)
         then rolling_std (out ! i) = Some 0 \<and> upper_bound (out ! i) = Some c \<and> lower_bound (out ! i) = Some c
         else rolling_std (out ! i) = None \<and> upper_bound (out ! i) = None \<and> lower_bound (out ! i) = None)"
    and temp: "temperature (out ! i) = Some c"
    if "i < length series" for i
  proof -
    have "sort_index a series ! i \<in> set (sort_index a series)"
      using that by (simp add: len_sorted)
    then have "sort_index a series ! i \<in> set series"
      by (simp add: set_sort_index [OF assms(3)])
    with assms(4) have t: "temperature (sort_index a series ! i) = Some c" by blast
    from that m [OF that] sd [OF that]
    show "rolling_mean (out ! i) = Some c \<and>
        (if 2 \<le> length (centered_window (sort_index a series) W i)
         then rolling_std (out ! i) = Some 0 \<and> upper_bound (out ! i) = Some c \<and> lower_bound (out ! i) = Some c
         else rolling_std (out ! i) = None \<and> upper_bound (out ! i) = None \<and> lower_bound (out ! i) = None)"
      by (simp add: out_def Let_def fadd_def fsub_def fmul_def)
    from that t show "temperature (out ! i) = Some c"
      by (simp add: out_def)
  qed
  have "\<not> anomaly r" if "r \<in> set (detect_anomalies out)" for r
  proof -
    from that obtain i where i: "i < length series" and r: "r = add_anomaly (out ! i)
        (fgt (temperature (out ! i)) (upper_bound (out ! i)) \<or> flt (temperature (out ! i)) (lower_bound (out ! i)))"
      by (auto simp: detect_anomalies_def in_set_conv_nth len)
    from rows [OF i] temp [OF i] show ?thesis
      by (auto simp: r add_anomaly_def baselined.defs fgt_def flt_def split: if_splits)
  qed
  then have none: "\<forall>r\<in>set (detect_anomalies out). \<not> anomaly r" by blast
  have wide: "rolling_std (out ! i) = Some 0 \<and> upper_bound (out ! i) = Some c \<and>
      lower_bound (out ! i) = Some c"
    if "3 \<le> W" "2 \<le> length series" "i < length series" for i
  proof -
    have "2 \<le> length (centered_window (sort_index a series) W i)"
      using that by (intro centered_window_two) (simp_all add: len_sorted)
    with rows [OF that(3)] show ?thesis by simp
  qed
  from res len rows wide none show ?thesis by blast
qed

theorem constant_series_witness:
  "is_argsort stable_argsort (map timestamp three_constant) \<and>
   set (map temperature three_constant) = {Some 5} \<and>
   (\<exists>out. calculate_moving_statistics stable_argsort three_constant 3 = Inr out \<and>
      length out = length three_constant \<and>
      (\<forall>i<length three_constant. rolling_std (out ! i) = Some 0 \<and>
            upper_bound (out ! i) = Some 5 \<and> lower_bound (out ! i) = Some 5) \<and>
      (\<forall>r\<in>set (detect_anomalies out). \<not> anomaly r))"
proof -
  have h1: "(1::int) \<le> 3" "(3::int) < 2 ^ 63" by simp_all
  note s = is_argsort_stable [of "map timestamp three_constant"]
  have h2: "\<forall>r\<in>set three_constant. temperature r = Some 5"
    by (simp add: three_constant_def obs_def)
  have h3: "(3::int) \<le> 3 \<and> 2 \<le> length three_constant"
    by (simp add: three_constant_def)
  have "set (map temperature three_constant) = {Some 5}"
    by (simp add: three_constant_def obs_def)
  with constant_series [OF h1 s h2] h3 s show ?thesis
    by blast
qed

subsection \<open>Windows larger than the series\<close>

lemma window_values_full:
  assumes "2 * int (length vals) - 1 \<le> W" and "i < length vals"
  shows "window_values vals W i = vals"
proof -
  define S where "S = int i + 1 + (W - 1) div 2"
  have "int (length vals) \<le> S"
    unfolding S_def using assms by presburger
  then have stop: "nat (clip S 0 (int (length vals))) = length vals"
    by (simp add: clip_def)
  have "S - W \<le> 0"
    unfolding S_def using assms by presburger
  then have start: "nat (clip (S - W) 0 (int (length vals))) = 0"
    by (simp add: clip_def)
  show ?thesis
    by (simp add: window_values_def get_window_bounds_def Let_def S_def [symmetric] stop start)
qed

lemma cms_two_days_3:
  "calculate_moving_statistics stable_argsort two_days 3 =
     Inr [observation.extend (obs 1 ''winter'' (Some 0))
            \<lparr>rolling_mean = Some 1, rolling_std = Some (sqrt 2),
               upper_bound = Some (1 + 2 * sqrt 2), lower_bound = Some (1 - 2 * sqrt 2)\<rparr>,
          observation.extend (obs 2 ''winter'' (Some 2))
            \<lparr>rolling_mean = Some 1, rolling_std = Some (sqrt 2),
               upper_bound = Some (1 + 2 * sqrt 2), lower_bound = Some (1 - 2 * sqrt 2)\<rparr>]"
proof -
  have t: "map temperature [obs 1 ''winter'' (Some 0), obs 2 ''winter'' (Some 2)] = [Some 0, Some 2]"
    by (simp add: obs_def)
  have m3: "roll_mean [Some 0, Some 2] 3 = [Some 1, Some 1]"
    by (simp add: roll_mean_def kernel_defs upt_rec)
  have d3: "roll_std [Some 0, Some 2] 3 = [Some (sqrt 2), Some (sqrt 2)]"
    by (simp add: roll_std_def kernel_defs upt_rec)
  show ?thesis
    unfolding calculate_moving_statistics_def assign_rolling_columns_def sort_two_days t Let_def m3 d3
    by (simp add: min_periods_def add_baseline_def fadd_def fsub_def fmul_def)
qed

lemma cms_two_days_2:
  "calculate_moving_statistics stable_argsort two_days 2 =
     Inr [observation.extend (obs 1 ''winter'' (Some 0))
            \<lparr>rolling_mean = Some 0, rolling_std = None, upper_bound = None, lower_bound = None\<rparr>,
          observation.extend (obs 2 ''winter'' (Some 2))
            \<lparr>rolling_mean = Some 1, rolling_std = Some (sqrt 2),
               upper_bound = Some (1 + 2 * sqrt 2), lower_bound = Some (1 - 2 * sqrt 2)\<rparr>]"
proof -
  have t: "map temperature [obs 1 ''winter'' (Some 0), obs 2 ''winter'' (Some 2)] = [Some 0, Some 2]"
    by (simp add: obs_def)
  have m2: "roll_mean [Some 0, Some 2] 2 = [Some 0, Some 1]"
    by (simp add: roll_mean_def kernel_defs upt_rec)
  have d2: "roll_std [Some 0, Some 2] 2 = [None, Some (sqrt 2)]"
    by (simp add: roll_std_def kernel_defs upt_rec)
  show ?thesis
    unfolding calculate_moving_statistics_def assign_rolling_columns_def sort_two_days t Let_def m2 d2
    by (simp add: min_periods_def add_baseline_def fadd_def fsub_def fmul_def)
qed

text \<open>
  Claim C3, as stated, fails: the window size is passed to \<^verbatim>\<open>rolling\<close> as it is, and a
  centered window of size 3 on two rows sees both rows from either row, while a window of
  size 2 sees only the first row from the first row. And an oversized window is an error
  once it does not fit a 64-bit integer.
\<close>

theorem oversized_window_counterexample:
  "calculate_moving_statistics stable_argsort two_days 3 =
     Inr [observation.extend (obs 1 ''winter'' (Some 0))
            \<lparr>rolling_mean = Some 1, rolling_std = Some (sqrt 2),
               upper_bound = Some (1 + 2 * sqrt 2), lower_bound = Some (1 - 2 * sqrt 2)\<rparr>,
          observation.extend (obs 2 ''winter'' (Some 2))
            \<lparr>rolling_mean = Some 1, rolling_std = Some (sqrt 2),
               upper_bound = Some (1 + 2 * sqrt 2), lower_bound = Some (1 - 2 * sqrt 2)\<rparr>] \<and>
   calculate_moving_statistics stable_argsort two_days (int (length two_days)) =
     Inr [observation.extend (obs 1 ''winter'' (Some 0))
            \<lparr>rolling_mean = Some 0, rolling_std = None, upper_bound = None, lower_bound = None\<rparr>,
          observation.extend (obs 2 ''winter'' (Some 2))
            \<lparr>rolling_mean = Some 1, rolling_std = Some (sqrt 2),
               upper_bound = Some (1 + 2 * sqrt 2), lower_bound = Some (1 - 2 * sqrt 2)\<rparr>] \<and>
   calculate_moving_statistics stable_argsort two_days 9223372036854775808 = Inl OverflowError"
proof -
  have n: "int (length two_days) = 2"
    by (simp add: two_days_def)
  have o: "calculate_moving_statistics stable_argsort two_days 9223372036854775808
      = Inl OverflowError"
    by (rule cms_overflow) simp
  from cms_two_days_3 cms_two_days_2 o show ?thesis
    unfolding n by (intro conjI)
qed

text \<open>
  Claim C3, amended. A window size \<open>1 \<le> W < 2^63\<close> is never an error, however much larger
  than the series it is. When moreover \<open>W \<ge> 2 * N - 1\<close> for a series of \<open>N\<close> rows, every
  row's window is the whole series: the rolling mean and standard deviation of every row
  are those of the whole series, and every such window size below \<open>2^63\<close> gives the same
  result.
\<close>

theorem oversized_window:
  assumes "1 \<le> W" and "W < 2 ^ 63" and "is_argsort a (map timestamp series)"
  shows "\<exists>out. calculate_moving_statistics a series W = Inr out \<and> length out = length series \<and>
     (2 * int (length series) - 1 \<le> W \<longrightarrow>
        (\<forall>i<length series.
           rolling_mean (out ! i) = series_mean (map temperature (sort_index a series)) \<and>
           rolling_std (out ! i) = series_std (map temperature (sort_index a series))) \<and>
        (\<forall>W'. 1 \<le> W' \<and> W' < 2 ^ 63 \<and> 2 * int (length series) - 1 \<le> W' \<longrightarrow>
           calculate_moving_statistics a series W' = Inr out))"
proof -
  define out where "out = map (\<lambda>i. add_baseline (sort_index a series ! i)
            (let m = calc_mean 1 (row_window a series W i);
                 sd = calc_std 1 1 (row_window a series W i)
             in (m, sd, fadd m (fmul (Some 2) sd), fsub m (fmul (Some 2) sd))))
          [0..<length series]"
  note len_sorted = length_sort_index [OF assms(3)]
  have res: "calculate_moving_statistics a series W = Inr out"
    unfolding out_def by (rule cms_Inr [OF assms])
  have len: "length out = length series"
    by (simp add: out_def)
  have full: "row_window a series V i = dropna (map temperature (sort_index a series))"
    if "2 * int (length series) - 1 \<le> V" "i < length series" for V i
    using that by (simp add: row_window_def window_values_full len_sorted)
  have stats: "rolling_mean (out ! i) = series_mean (map temperature (sort_index a series)) \<and>
           rolling_std (out ! i) = series_std (map temperature (sort_index a series))"
    if "2 * int (length series) - 1 \<le> W" "i < length series" for i
    using that by (simp add: out_def full Let_def series_mean_def series_std_def)
  have same: "calculate_moving_statistics a series W' = Inr out"
    if "2 * int (length series) - 1 \<le> W" "1 \<le> W'" "W' < 2 ^ 63"
      "2 * int (length series) - 1 \<le> W'" for W'
    unfolding cms_Inr [OF that(2,3) assms(3)] out_def using that(1,4)
    by (simp add: full)
  from res len stats same show ?thesis by blast
qed

theorem oversized_window_witness:
  "(1::int) \<le> 3 \<and> (3::int) < 2 ^ 63 \<and> is_argsort stable_argsort (map timestamp two_days) \<and>
   (\<exists>out. calculate_moving_statistics stable_argsort two_days 3 = Inr out \<and>
      length out = length two_days \<and>
      calculate_moving_statistics stable_argsort two_days 90 = Inr out)"
proof -
  have h: "(1::int) \<le> 3" "(3::int) < 2 ^ 63" by simp_all
  note s = is_argsort_stable [of "map timestamp two_days"]
  have n: "2 * int (length two_days) - 1 \<le> 3" "2 * int (length two_days) - 1 \<le> 90"
    by (simp_all add: two_days_def)
  have h': "(1::int) \<le> 90" "(90::int) < 2 ^ 63" by simp_all
  from oversized_window [OF h s] n h' h s show ?thesis
    by blast
qed

subsection \<open>Input order\<close>

lemma cms_tied_a:
  "calculate_moving_statistics a tied_a 2 =
     Inr [observation.extend (obs 1 ''winter'' (Some 0))
            \<lparr>rolling_mean = Some 0, rolling_std = None, upper_bound = None, lower_bound = None\<rparr>,
          observation.extend (obs 1 ''winter'' (Some 10))
            \<lparr>rolling_mean = Some 5, rolling_std = Some (sqrt 50),
               upper_bound = Some (5 + 2 * sqrt 50), lower_bound = Some (5 - 2 * sqrt 50)\<rparr>,
          observation.extend (obs 2 ''winter'' (Some 20))
            \<lparr>rolling_mean = Some 15, rolling_std = Some (sqrt 50),
               upper_bound = Some (15 + 2 * sqrt 50), lower_bound = Some (15 - 2 * sqrt 50)\<rparr>]"
proof -
  have sa: "sort_index a tied_a = tied_a"
    by (rule sort_index_sorted_id) (simp add: tied_a_def obs_def)
  have ta: "map temperature tied_a = [Some 0, Some 10, Some 20]"
    by (simp add: tied_a_def obs_def)
  have ma: "roll_mean [Some 0, Some 10, Some 20] 2 = [Some 0, Some 5, Some 15]"
    by (simp add: roll_mean_def kernel_defs upt_rec)
  have da: "roll_std [Some 0, Some 10, Some 20] 2 = [None, Some (sqrt 50), Some (sqrt 50)]"
    by (simp add: roll_std_def kernel_defs upt_rec)
  show ?thesis
    unfolding calculate_moving_statistics_def assign_rolling_columns_def sa ta Let_def ma da
    by (simp add: min_periods_def tied_a_def add_baseline_def fadd_def fsub_def fmul_def)
qed

lemma cms_tied_b:
  "calculate_moving_statistics a tied_b 2 =
     Inr [observation.extend (obs 1 ''winter'' (Some 10))
            \<lparr>rolling_mean = Some 10, rolling_std = None, upper_bound = None, lower_bound = None\<rparr>,
          observation.extend (obs 1 ''winter'' (Some 0))
            \<lparr>rolling_mean = Some 5, rolling_std = Some (sqrt 50),
               upper_bound = Some (5 + 2 * sqrt 50), lower_bound = Some (5 - 2 * sqrt 50)\<rparr>,
          observation.extend (obs 2 ''winter'' (Some 20))
            \<lparr>rolling_mean = Some 10, rolling_std = Some (sqrt 200),
               upper_bound = Some (10 + 2 * sqrt 200), lower_bound = Some (10 - 2 * sqrt 200)\<rparr>]"
proof -
  have sb: "sort_index a tied_b = tied_b"
    by (rule sort_index_sorted_id) (simp add: tied_b_def obs_def)
  have tb: "map temperature tied_b = [Some 10, Some 0, Some 20]"
    by (simp add: tied_b_def obs_def)
  have mb: "roll_mean [Some 10, Some 0, Some 20] 2 = [Some 10, Some 5, Some 10]"
    by (simp add: roll_mean_def kernel_defs upt_rec)
  have db: "roll_std [Some 10, Some 0, Some 20] 2 = [None, Some (sqrt 50), Some (sqrt 200)]"
    by (simp add: roll_std_def kernel_defs upt_rec)
  show ?thesis
    unfolding calculate_moving_statistics_def assign_rolling_columns_def sb tb Let_def mb db
    by (simp add: min_periods_def tied_b_def add_baseline_def fadd_def fsub_def fmul_def)
qed

text \<open>
  Claim C4, as stated, fails: the program does not break ties between rows of equal
  timestamp, and the windows follow the order of the rows. Both lists below are in
  timestamp order, so that \<^verbatim>\<open>sort_index\<close> leaves them as they are, and each is a
  permutation of the other; the row of timestamp 2 gets the rolling mean 15 in one and 10
  in the other.
\<close>

theorem sort_invariance_counterexample:
  "mset tied_b = mset tied_a \<and>
   sorted (map timestamp tied_a) \<and> sorted (map timestamp tied_b) \<and>
   calculate_moving_statistics stable_argsort tied_a 2 =
     Inr [observation.extend (obs 1 ''winter'' (Some 0))
            \<lparr>rolling_mean = Some 0, rolling_std = None, upper_bound = None, lower_bound = None\<rparr>,
          observation.extend (obs 1 ''winter'' (Some 10))
            \<lparr>rolling_mean = Some 5, rolling_std = Some (sqrt 50),
               upper_bound = Some (5 + 2 * sqrt 50), lower_bound = Some (5 - 2 * sqrt 50)\<rparr>,
          observation.extend (obs 2 ''winter'' (Some 20))
            \<lparr>rolling_mean = Some 15, rolling_std = Some (sqrt 50),
               upper_bound = Some (15 + 2 * sqrt 50), lower_bound = Some (15 - 2 * sqrt 50)\<rparr>] \<and>
   calculate_moving_statistics stable_argsort tied_b 2 =
     Inr [observation.extend (obs 1 ''winter'' (Some 10))
            \<lparr>rolling_mean = Some 10, rolling_std = None, upper_bound = None, lower_bound = None\<rparr>,
          observation.extend (obs 1 ''winter'' (Some 0))
            \<lparr>rolling_mean = Some 5, rolling_std = Some (sqrt 50),
               upper_bound = Some (5 + 2 * sqrt 50), lower_bound = Some (5 - 2 * sqrt 50)\<rparr>,
          observation.extend (obs 2 ''winter'' (Some 20))
            \<lparr>rolling_mean = Some 10, rolling_std = Some (sqrt 200),
               upper_bound = Some (10 + 2 * sqrt 200), lower_bound = Some (10 - 2 * sqrt 200)\<rparr>]"
proof -
  have p: "mset tied_b = mset tied_a"
    by (simp add: tied_a_def tied_b_def)
  have sa: "sorted (map timestamp tied_a)"
    by (simp add: tied_a_def obs_def)
  have sb: "sorted (map timestamp tied_b)"
    by (simp add: tied_b_def obs_def)
  from p sa sb cms_tied_a [of stable_argsort] cms_tied_b [of stable_argsort]
  show ?thesis by (intro conjI)
qed

text \<open>
  Claim C4, amended. When the timestamps of a series are pairwise distinct,
  \<^verbatim>\<open>calculate_moving_statistics\<close> gives the same result for every permutation of the
  series; when the series itself is in timestamp order, that result is the rolling
  columns of the series as it is.
\<close>

theorem sort_invariance:
  assumes "mset shuffled = mset series" and "distinct (map timestamp series)"
    and "is_argsort a (map timestamp series)" and "is_argsort a (map timestamp shuffled)"
  shows "calculate_moving_statistics a shuffled W = calculate_moving_statistics a series W \<and>
     (sorted (map timestamp series) \<longrightarrow>
        calculate_moving_statistics a shuffled W = assign_rolling_columns series W)"
proof -
  from assms(2) have inj: "inj_on timestamp (set series)"
    by (simp add: distinct_map)
  have a: "sort_key timestamp series = sort_index a series"
    using sort_index_mset [OF assms(3)] inj sort_index_sorted [OF assms(3)]
    by (intro sort_key_inj_key_eq) simp_all
  have "mset series = mset (sort_index a shuffled)"
    using sort_index_mset [OF assms(4)] assms(1) by simp
  then have b: "sort_key timestamp series = sort_index a shuffled"
    using inj sort_index_sorted [OF assms(4)]
    by (intro sort_key_inj_key_eq) simp_all
  from a b have eq: "sort_index a shuffled = sort_index a series"
    by simp
  then have first: "calculate_moving_statistics a shuffled W = calculate_moving_statistics a series W"
    by (simp add: calculate_moving_statistics_def)
  have "calculate_moving_statistics a shuffled W = assign_rolling_columns series W"
    if "sorted (map timestamp series)"
    using that eq by (simp add: calculate_moving_statistics_def sort_index_sorted_id)
  with first show ?thesis by blast
qed

theorem sort_invariance_witness:
  "mset two_days = mset [obs 1 ''winter'' (Some 0), obs 2 ''winter'' (Some 2)] \<and>
   distinct (map timestamp [obs 1 ''winter'' (Some 0), obs 2 ''winter'' (Some 2)]) \<and>
   is_argsort stable_argsort (map timestamp two_days) \<and>
   calculate_moving_statistics stable_argsort two_days 30 =
     calculate_moving_statistics stable_argsort
       [obs 1 ''winter'' (Some 0), obs 2 ''winter'' (Some 2)] 30"
proof -
  let ?sorted = "[obs 1 ''winter'' (Some 0), obs 2 ''winter'' (Some 2)]"
  have p: "mset two_days = mset ?sorted"
    by (simp add: two_days_def)
  have d: "distinct (map timestamp ?sorted)"
    by (simp add: obs_def)
  note s1 = is_argsort_stable [of "map timestamp ?sorted"]
  note s2 = is_argsort_stable [of "map timestamp two_days"]
  from sort_invariance [OF p d s1 s2, of 30, THEN conjunct1] p d s2
  show ?thesis by (intro conjI)
qed

subsection \<open>Anomaly classification\<close>

lemma add_anomaly_sel [simp]:
  "anomaly (add_anomaly r a) = a"
  "baselined.truncate (add_anomaly r a) = r"
  by (simp_all add: add_anomaly_def baselined.defs)

lemma fgt_iff: "fgt a b = (\<exists>x y. a = Some x \<and> b = Some y \<and> y < x)"
  by (cases a; cases b) (simp_all add: fgt_def)

lemma flt_iff: "flt a b = (\<exists>x y. a = Some x \<and> b = Some y \<and> x < y)"
  by (cases a; cases b) (simp_all add: flt_def)

lemma cms_bounds_together:
  assumes "calculate_moving_statistics a series W = Inr out" and "i < length out"
  shows "(upper_bound (out ! i) = None) = (lower_bound (out ! i) = None)"
proof -
  from assms(1) have res: "assign_rolling_columns (sort_index a series) W = Inr out"
    by (simp add: calculate_moving_statistics_def)
  from arc_window [OF res] have W: "1 \<le> W" "W < 2 ^ 63"
    by simp_all
  from res assms(2) show ?thesis
    unfolding arc_Inr [OF W]
    by (auto simp: Let_def fadd_def fsub_def fmul_def split: option.splits)
qed

text \<open>
  Claim C6, as stated, fails: a row whose upper bound is NaN and whose lower bound is
  defined is flagged when its temperature is below the lower bound.
\<close>

theorem anomaly_classification_counterexample:
  "detect_anomalies [banded (Some 0) None (Some 5)] =
     [baselined.extend (banded (Some 0) None (Some 5)) \<lparr>anomaly = True\<rparr>]"
  by (simp add: detect_anomalies_def add_anomaly_def banded_def obs_def observation.defs fgt_def flt_def)

text \<open>
  Claim C6, amended. \<^verbatim>\<open>detect_anomalies\<close> keeps every row and flags a row exactly when its
  temperature is above its upper bound or below its lower bound, a comparison with a NaN
  operand being false. A row whose bounds are both NaN is never flagged. In a result of
  \<^verbatim>\<open>calculate_moving_statistics\<close> the two bounds of a row are NaN together, so there a row
  with a NaN bound is never flagged.
\<close>

theorem anomaly_classification:
  "length (detect_anomalies rows) = length rows \<and>
   (\<forall>i<length rows.
      baselined.truncate (detect_anomalies rows ! i) = rows ! i \<and>
      anomaly (detect_anomalies rows ! i) =
        ((\<exists>t u. temperature (rows ! i) = Some t \<and> upper_bound (rows ! i) = Some u \<and> u < t) \<or>
         (\<exists>t l. temperature (rows ! i) = Some t \<and> lower_bound (rows ! i) = Some l \<and> t < l)) \<and>
      (upper_bound (rows ! i) = None \<and> lower_bound (rows ! i) = None \<longrightarrow>
         \<not> anomaly (detect_anomalies rows ! i))) \<and>
   (calculate_moving_statistics a series W = Inr out \<longrightarrow>
      (\<forall>i<length out. upper_bound (out ! i) = None \<or> lower_bound (out ! i) = None \<longrightarrow>
         \<not> anomaly (detect_anomalies out ! i)))"
proof (intro conjI allI impI)
  show "length (detect_anomalies rows) = length rows"
    by (simp add: detect_anomalies_def)
next
  fix i assume "i < length rows"
  then show "baselined.truncate (detect_anomalies rows ! i) = rows ! i"
    by (simp add: detect_anomalies_def)
next
  fix i assume "i < length rows"
  then show "anomaly (detect_anomalies rows ! i) =
        ((\<exists>t u. temperature (rows ! i) = Some t \<and> upper_bound (rows ! i) = Some u \<and> u < t) \<or>
         (\<exists>t l. temperature (rows ! i) = Some t \<and> lower_bound (rows ! i) = Some l \<and> t < l))"
    by (simp add: detect_anomalies_def fgt_iff flt_iff)
next
  fix i assume "i < length rows"
    and "upper_bound (rows ! i) = None \<and> lower_bound (rows ! i) = None"
  then show "\<not> anomaly (detect_anomalies rows ! i)"
    by (simp add: detect_anomalies_def fgt_def flt_def split: option.splits)
next
  fix i assume res: "calculate_moving_statistics a series W = Inr out" and i: "i < length out"
    and nan: "upper_bound (out ! i) = None \<or> lower_bound (out ! i) = None"
  from cms_bounds_together [OF res i] nan
  have "upper_bound (out ! i) = None" "lower_bound (out ! i) = None"
    by auto
  with i show "\<not> anomaly (detect_anomalies out ! i)"
    by (simp add: detect_anomalies_def fgt_def flt_def split: option.splits)
qed

theorem anomaly_classification_witness:
  "anomaly (detect_anomalies [banded (Some 30) (Some 25) (Some 5), banded (Some 30) None None] ! 0) \<and>
   \<not> anomaly (detect_anomalies [banded (Some 30) (Some 25) (Some 5), banded (Some 30) None None] ! 1) \<and>
   (\<exists>out. calculate_moving_statistics stable_argsort three_constant 1 = Inr out \<and>
      upper_bound (out ! 1) = None \<and>
      \<not> anomaly (detect_anomalies out ! 1))"
proof -
  define rows where "rows = [banded (Some 30) (Some 25) (Some 5), banded (Some 30) None None]"
  define out where "out = [observation.extend (obs 1 ''winter'' (Some 5))
            \<lparr>rolling_mean = Some 5, rolling_std = None, upper_bound = None, lower_bound = None\<rparr>,
          observation.extend (obs 2 ''winter'' (Some 5))
            \<lparr>rolling_mean = Some 5, rolling_std = None, upper_bound = None, lower_bound = None\<rparr>,
          observation.extend (obs 3 ''winter'' (Some 5))
            \<lparr>rolling_mean = Some 5, rolling_std = None, upper_bound = None, lower_bound = None\<rparr>]"
  note th = anomaly_classification [of rows stable_argsort three_constant 1 out]
  note per_row = th [THEN conjunct2, THEN conjunct1, rule_format]
  note on_result = th [THEN conjunct2, THEN conjunct2, rule_format]
  have res: "calculate_moving_statistics stable_argsort three_constant 1 = Inr out"
    unfolding out_def by (rule cms_three_constant)
  have "anomaly (detect_anomalies rows ! 0) =
        ((\<exists>t u. temperature (rows ! 0) = Some t \<and> upper_bound (rows ! 0) = Some u \<and> u < t) \<or>
         (\<exists>t l. temperature (rows ! 0) = Some t \<and> lower_bound (rows ! 0) = Some l \<and> t < l))"
    using per_row [of 0] by (simp add: rows_def)
  then have a: "anomaly (detect_anomalies rows ! 0)"
    by (simp add: rows_def banded_def obs_def observation.defs)
  have "upper_bound (rows ! 1) = None \<and> lower_bound (rows ! 1) = None \<longrightarrow>
         \<not> anomaly (detect_anomalies rows ! 1)"
    using per_row [of 1] by (simp add: rows_def)
  then have b: "\<not> anomaly (detect_anomalies rows ! 1)"
    by (simp add: rows_def banded_def obs_def observation.defs)
  have u: "upper_bound (out ! 1) = None"
    by (simp add: out_def observation.defs)
  have "1 < length out" by (simp add: out_def)
  with on_result [OF res, of 1] u have c: "\<not> anomaly (detect_anomalies out ! 1)"
    by simp
  from res u c have "\<exists>out. calculate_moving_statistics stable_argsort three_constant 1 = Inr out \<and>
      upper_bound (out ! 1) = None \<and> \<not> anomaly (detect_anomalies out ! 1)"
    by (intro exI [of _ out] conjI)
  with a b show ?thesis
    unfolding rows_def by (intro conjI)
qed

subsection \<open>The live reading against the seasonal band\<close>

lemma season_rows_nonempty:
  "(filter (\<lambda>r. season r = Some s) city_data \<noteq> []) = (Some s \<in> set (map season city_data))"
  by (induction city_data) auto

lemma fle_Some [simp]: "fle (Some a) (Some b) = (a \<le> b)"
  by (simp add: fle_def)

lemma band_Some [simp]:
  "fsub (Some m) (fmul (Some 2) (Some sd)) = Some (m - 2 * sd)"
  "fadd (Some m) (fmul (Some 2) (Some sd)) = Some (m + 2 * sd)"
  by (simp_all add: fsub_def fadd_def fmul_def)

text \<open>
  Claim C7. For a season that has rows in the city's data and any reading, the
  evaluation takes the mean and the sample standard deviation of the season's
  temperatures, \<open>lower = mean - 2 * std\<close> and \<open>upper = mean + 2 * std\<close>, and the reading is
  normal exactly when \<open>lower \<le> reading \<le> upper\<close>, both ends included. With mean 15 and
  standard deviation 5 the reading 24.9 is normal and the reading 25.1 is not.
\<close>

theorem reading_band:
  assumes "Some s \<in> set (map season city_data)"
  shows "\<exists>e. evaluateReading city_data s x = Some e \<and>
     mean_temp e = series_mean (map temperature (filter (\<lambda>r. season r = Some s) city_data)) \<and>
     std_temp e = series_std (map temperature (filter (\<lambda>r. season r = Some s) city_data)) \<and>
     lower e = fsub (mean_temp e) (fmul (Some 2) (std_temp e)) \<and>
     upper e = fadd (mean_temp e) (fmul (Some 2) (std_temp e)) \<and>
     is_normal e = (fle (lower e) x \<and> fle x (upper e)) \<and>
     (\<forall>m sd v. mean_temp e = Some m \<and> std_temp e = Some sd \<and> x = Some v \<longrightarrow>
        lower e = Some (m - 2 * sd) \<and> upper e = Some (m + 2 * sd) \<and>
        is_normal e = (m - 2 * sd \<le> v \<and> v \<le> m + 2 * sd)) \<and>
     (mean_temp e = Some 15 \<and> std_temp e = Some 5 \<longrightarrow>
        (x = Some (249 / 10) \<longrightarrow> is_normal e) \<and> (x = Some (251 / 10) \<longrightarrow> \<not> is_normal e))"
proof -
  from assms have "0 < length (filter (\<lambda>r. season r = Some s) city_data)"
    using season_rows_nonempty [of s city_data] by simp
  then show ?thesis
    by (simp add: evaluateReading_def Let_def)
qed

lemma winter_stats:
  "series_mean (map temperature (filter (\<lambda>r. season r = Some ''winter'') winter_days)) = Some 15"
  "series_std (map temperature (filter (\<lambda>r. season r = Some ''winter'') winter_days)) = Some 5"
  by (simp_all add: winter_days_def obs_def series_mean_def series_std_def calc_mean_def
      calc_std_def calc_var_def ssqdm_def power2_eq_square)

theorem reading_band_witness:
  "Some ''winter'' \<in> set (map season winter_days) \<and>
   (\<exists>e. evaluateReading winter_days ''winter'' (Some (249 / 10)) = Some e \<and>
        mean_temp e = Some 15 \<and> std_temp e = Some 5 \<and>
        lower e = Some 5 \<and> upper e = Some 25 \<and> is_normal e) \<and>
   (\<exists>e. evaluateReading winter_days ''winter'' (Some 25) = Some e \<and> is_normal e) \<and>
   (\<exists>e. evaluateReading winter_days ''winter'' (Some (251 / 10)) = Some e \<and> \<not> is_normal e)"
proof -
  have h: "Some ''winter'' \<in> set (map season winter_days)"
    by (simp add: winter_days_def obs_def)
  have a: "\<exists>e. evaluateReading winter_days ''winter'' (Some (249 / 10)) = Some e \<and>
        mean_temp e = Some 15 \<and> std_temp e = Some 5 \<and>
        lower e = Some 5 \<and> upper e = Some 25 \<and> is_normal e"
    using reading_band [OF h, of "Some (249 / 10)"] by (auto simp: winter_stats)
  have b: "\<exists>e. evaluateReading winter_days ''winter'' (Some 25) = Some e \<and> is_normal e"
    using reading_band [OF h, of "Some 25"] by (auto simp: winter_stats)
  have c: "\<exists>e. evaluateReading winter_days ''winter'' (Some (251 / 10)) = Some e \<and> \<not> is_normal e"
    using reading_band [OF h, of "Some (251 / 10)"] by (auto simp: winter_stats)
  from h a b c show ?thesis by (intro conjI)
qed

subsection \<open>Seasons without data\<close>

lemma set_map_filter_Some: "set (List.map_filter f xs) = {y. Some y \<in> f ` set xs}"
  by (induction xs) (auto simp: map_filter_simps split: option.splits)

lemma set_group_keys: "set (group_keys city_data) = {s. Some s \<in> set (map season city_data)}"
  by (simp add: group_keys_def set_map_filter_Some)

lemma map_fst_seasonal_stats: "map fst (seasonal_stats city_data) = group_keys city_data"
  by (simp add: seasonal_stats_def comp_def)

lemma winter_days_stats:
  "seasonal_stats winter_days =
     [(''summer'', \<lparr>temperature_mean = Some 30, temperature_std = None,
          temperature_min = Some 30, temperature_max = Some 30, temperature_count = 1\<rparr>),
      (''winter'', \<lparr>temperature_mean = Some 15, temperature_std = Some 5,
          temperature_min = Some 10, temperature_max = Some 20, temperature_count = 3\<rparr>)]"
  by (simp add: seasonal_stats_def group_keys_def winter_days_def obs_def List.map_filter_def
      agg_def series_mean_def series_std_def series_min_def series_max_def series_count_def
      calc_mean_def calc_std_def calc_var_def ssqdm_def round2_def rint_def power2_eq_square)

text \<open>
  Claim C8, as stated, fails: the program has no value for a season without data. For a
  season that no row carries the block under the guard is skipped; no evaluation exists
  and the page stays as it was, without a message.
\<close>

theorem no_seasonal_data_counterexample:
  "evaluateReading winter_days ''autumn'' (Some 12) = None \<and>
   show_evaluation winter_days ''autumn'' (Some 12) [] = []"
  by (simp add: show_evaluation_def evaluateReading_def winter_days_def obs_def)

text \<open>
  Claim C8, amended. The evaluation of a reading is skipped exactly when the seasonal
  aggregation has no entry for the season, which is when no row of the city's data
  carries that season: then no evaluation is computed and nothing is put on the page.
  Otherwise the evaluation is computed and shown: the season, the seasonal mean, the normal
  range, and a success box for a normal reading or a warning box for another. Either way
  nothing is raised: the two functions are total.
\<close>

theorem no_seasonal_data:
  "(evaluateReading city_data s x = None) =
     (s \<notin> set (map fst (seasonal_stats city_data))) \<and>
   (s \<notin> set (map fst (seasonal_stats city_data))) = (Some s \<notin> set (map season city_data)) \<and>
   (show_evaluation city_data s x page = page) =
     (s \<notin> set (map fst (seasonal_stats city_data))) \<and>
   (\<exists>e. evaluateReading city_data s x = Some e \<and>
        show_evaluation city_data s x page =
          page @ [Season_line s, Mean_line (mean_temp e), Range_line (lower e) (upper e),
                  if is_normal e then Success_box else Warning_box]) =
     (s \<in> set (map fst (seasonal_stats city_data)))"
proof -
  have k: "(s \<in> set (map fst (seasonal_stats city_data))) = (Some s \<in> set (map season city_data))"
    by (simp only: map_fst_seasonal_stats set_group_keys mem_Collect_eq)
  have e: "(0 < length (filter (\<lambda>r. season r = Some s) city_data))
      = (Some s \<in> set (map season city_data))"
    using season_rows_nonempty [of s city_data] by simp
  have a: "(evaluateReading city_data s x = None) = (Some s \<notin> set (map season city_data))"
    unfolding e [symmetric] by (simp add: evaluateReading_def Let_def)
  have b: "(show_evaluation city_data s x page = page) = (evaluateReading city_data s x = None)"
    by (cases "evaluateReading city_data s x") (simp_all add: show_evaluation_def)
  have c: "(\<exists>e. evaluateReading city_data s x = Some e \<and>
        show_evaluation city_data s x page =
          page @ [Season_line s, Mean_line (mean_temp e), Range_line (lower e) (upper e),
                  if is_normal e then Success_box else Warning_box])
      = (Some s \<in> set (map season city_data))"
    unfolding e [symmetric]
    by (simp add: show_evaluation_def evaluateReading_def Let_def)
  from a b c k show ?thesis by simp
qed

theorem no_seasonal_data_witness:
  "''autumn'' \<notin> set (map fst (seasonal_stats winter_days)) \<and>
   evaluateReading winter_days ''autumn'' (Some 12) = None \<and>
   show_evaluation winter_days ''autumn'' (Some 12) [Success_box] = [Success_box] \<and>
   (\<exists>e. evaluateReading winter_days ''summer'' (Some 12) = Some e \<and>
      show_evaluation winter_days ''summer'' (Some 12) [] =
        [Season_line ''summer'', Mean_line (mean_temp e), Range_line (lower e) (upper e),
         if is_normal e then Success_box else Warning_box])"
proof -
  have a: "''autumn'' \<notin> set (map fst (seasonal_stats winter_days))"
    by (simp add: winter_days_stats)
  have b: "''summer'' \<in> set (map fst (seasonal_stats winter_days))"
    by (simp add: winter_days_stats)
  note absent = no_seasonal_data [of winter_days "''autumn''" "Some 12" "[Success_box]"]
  note present = no_seasonal_data [of winter_days "''summer''" "Some 12" "[]",
      THEN conjunct2, THEN conjunct2, THEN conjunct2]
  have c: "evaluateReading winter_days ''autumn'' (Some 12) = None"
    by (rule absent [THEN conjunct1, THEN iffD2, OF a])
  have d: "show_evaluation winter_days ''autumn'' (Some 12) [Success_box] = [Success_box]"
    by (rule absent [THEN conjunct2, THEN conjunct2, THEN conjunct1, THEN iffD2, OF a])
  have "\<exists>e. evaluateReading winter_days ''summer'' (Some 12) = Some e \<and>
      show_evaluation winter_days ''summer'' (Some 12) [] =
        [] @ [Season_line ''summer'', Mean_line (mean_temp e), Range_line (lower e) (upper e),
         if is_normal e then Success_box else Warning_box]"
    by (rule present [THEN iffD2, OF b])
  then have e: "\<exists>e. evaluateReading winter_days ''summer'' (Some 12) = Some e \<and>
      show_evaluation winter_days ''summer'' (Some 12) [] =
        [Season_line ''summer'', Mean_line (mean_temp e), Range_line (lower e) (upper e),
         if is_normal e then Success_box else Warning_box]"
    by simp
  from a c d e show ?thesis by (intro conjI)
qed

subsection \<open>Counts of the seasonal aggregation\<close>

lemma distinct_group_keys: "distinct (group_keys city_data)"
  by (simp add: group_keys_def)

lemma length_dropna: "length (dropna vs) = length (filter (\<lambda>v. v \<noteq> None) vs)"
  by (induction vs rule: dropna.induct) simp_all

lemma group_count:
  "series_count (map temperature (filter (\<lambda>r. season r = Some k) city_data))
     = length (filter (\<lambda>r. season r = Some k \<and> temperature r \<noteq> None) city_data)"
  by (simp add: series_count_def length_dropna filter_map comp_def conj_commute)

lemma sum_group_lengths:
  assumes "finite K"
  shows "(\<Sum>k\<in>K. length (filter (\<lambda>r. season r = Some k \<and> Q r) rows))
     = length (filter (\<lambda>r. season r \<in> Some ` K \<and> Q r) rows)"
proof (induction rows)
  case Nil
  show ?case by simp
next
  case (Cons r rows)
  have "(\<Sum>k\<in>K. length (filter (\<lambda>r. season r = Some k \<and> Q r) (r # rows)))
      = (\<Sum>k\<in>K. (if season r = Some k \<and> Q r then 1 else 0))
        + (\<Sum>k\<in>K. length (filter (\<lambda>r. season r = Some k \<and> Q r) rows))"
  proof -
    have "(\<Sum>k\<in>K. length (filter (\<lambda>r. season r = Some k \<and> Q r) (r # rows)))
      = (\<Sum>k\<in>K. (if season r = Some k \<and> Q r then 1 else 0)
          + length (filter (\<lambda>r. season r = Some k \<and> Q r) rows))"
      by (rule sum.cong) auto
    then show ?thesis by (simp only: sum.distrib)
  qed
  moreover have "(\<Sum>k\<in>K. (if season r = Some k \<and> Q r then 1 else 0 :: nat))
      = (if season r \<in> Some ` K \<and> Q r then 1 else 0)"
  proof (cases "season r")
    case None
    then show ?thesis by auto
  next
    case (Some l)
    have "(\<Sum>k\<in>K. (if l = k \<and> Q r then 1 else 0 :: nat)) = (\<Sum>k\<in>K. (if k = l then (if Q r then 1 else 0) else 0))"
      by (rule sum.cong) auto
    also have "\<dots> = (if l \<in> K then (if Q r then 1 else 0) else 0)"
      using assms by (simp add: sum.delta)
    finally show ?thesis using Some by auto
  qed
  ultimately show ?case using Cons.IH by simp
qed

text \<open>
  Claim C9, as stated, fails: \<^verbatim>\<open>count\<close> counts the temperatures that are not NaN, and
  \<^verbatim>\<open>groupby\<close> makes a group for every label that occurs, enum value or not. A winter row
  with a NaN temperature gives the winter entry the count 0; a row labelled
  \<^verbatim>\<open>monsoon\<close> gives an entry of count 1.
\<close>

theorem seasonal_total_count_counterexample:
  "seasonal_stats [obs 1 ''winter'' None] =
     [(''winter'', \<lparr>temperature_mean = None, temperature_std = None, temperature_min = None,
          temperature_max = None, temperature_count = 0\<rparr>)] \<and>
   seasonal_stats [obs 1 ''monsoon'' (Some 30)] =
     [(''monsoon'', \<lparr>temperature_mean = Some 30, temperature_std = None, temperature_min = Some 30,
          temperature_max = Some 30, temperature_count = 1\<rparr>)]"
  by (simp add: seasonal_stats_def group_keys_def obs_def List.map_filter_def agg_def
      series_mean_def series_std_def series_min_def series_max_def series_count_def
      calc_mean_def calc_std_def calc_var_def round2_def rint_def)

text \<open>
  Claim C9, amended. The counts of the entries of the seasonal aggregation sum to the
  number of rows that carry a season label, whatever the label, and a temperature that is
  not NaN; the count of an entry is the number of such rows with its label. The entries
  are, once each, the labels that occur in the input: a season absent from the input has
  no entry.
\<close>

theorem seasonal_total_count:
  "sum_list (map (\<lambda>e. temperature_count (snd e)) (seasonal_stats city_data))
     = length (filter (\<lambda>r. season r \<noteq> None \<and> temperature r \<noteq> None) city_data) \<and>
   set (map fst (seasonal_stats city_data)) = {s. Some s \<in> set (map season city_data)} \<and>
   distinct (map fst (seasonal_stats city_data)) \<and>
   (\<forall>s p. (s, p) \<in> set (seasonal_stats city_data) \<longrightarrow>
      temperature_count p
        = length (filter (\<lambda>r. season r = Some s \<and> temperature r \<noteq> None) city_data))"
proof -
  let ?K = "set (group_keys city_data)"
  let ?Q = "\<lambda>r. temperature r \<noteq> None"
  have "sum_list (map (\<lambda>e. temperature_count (snd e)) (seasonal_stats city_data))
      = sum_list (map (\<lambda>k. length (filter (\<lambda>r. season r = Some k \<and> ?Q r) city_data)) (group_keys city_data))"
    by (simp add: seasonal_stats_def comp_def agg_def group_count)
  also have "\<dots> = (\<Sum>k\<in>?K. length (filter (\<lambda>r. season r = Some k \<and> ?Q r) city_data))"
    using distinct_group_keys by (simp add: sum_list_distinct_conv_sum_set)
  also have "\<dots> = length (filter (\<lambda>r. season r \<in> Some ` ?K \<and> ?Q r) city_data)"
    by (rule sum_group_lengths) simp
  also have "\<dots> = length (filter (\<lambda>r. season r \<noteq> None \<and> ?Q r) city_data)"
  proof -
    have "(season r \<in> Some ` ?K) = (season r \<noteq> None)" if "r \<in> set city_data" for r
    proof (cases "season r")
      case None
      then show ?thesis by auto
    next
      case (Some l)
      with that have "Some l \<in> set (map season city_data)" by force
      then have "l \<in> ?K" by (simp add: set_group_keys)
      with Some show ?thesis by simp
    qed
    then have "filter (\<lambda>r. season r \<in> Some ` ?K \<and> ?Q r) city_data
        = filter (\<lambda>r. season r \<noteq> None \<and> ?Q r) city_data"
      by (intro filter_cong) auto
    then show ?thesis by simp
  qed
  finally have total: "sum_list (map (\<lambda>e. temperature_count (snd e)) (seasonal_stats city_data))
     = length (filter (\<lambda>r. season r \<noteq> None \<and> temperature r \<noteq> None) city_data)" .
  have keys: "set (map fst (seasonal_stats city_data)) = {s. Some s \<in> set (map season city_data)}"
    by (simp only: map_fst_seasonal_stats set_group_keys)
  have dist: "distinct (map fst (seasonal_stats city_data))"
    by (simp only: map_fst_seasonal_stats distinct_group_keys)
  have each: "temperature_count p
        = length (filter (\<lambda>r. season r = Some s \<and> temperature r \<noteq> None) city_data)"
    if "(s, p) \<in> set (seasonal_stats city_data)" for s p
    using that by (auto simp: seasonal_stats_def agg_def group_count)
  from total keys dist each show ?thesis by blast
qed

theorem seasonal_total_count_witness:
  "sum_list (map (\<lambda>e. temperature_count (snd e)) (seasonal_stats winter_days)) = 4 \<and>
   set (map fst (seasonal_stats winter_days)) = {''summer'', ''winter''} \<and>
   length (filter (\<lambda>r. season r = Some ''winter'' \<and> temperature r \<noteq> None) winter_days) = 3"
proof -
  note th = seasonal_total_count [of winter_days]
  have "length (filter (\<lambda>r. season r \<noteq> None \<and> temperature r \<noteq> None) winter_days) = 4"
    by (simp add: winter_days_def obs_def)
  with th [THEN conjunct1]
  have a: "sum_list (map (\<lambda>e. temperature_count (snd e)) (seasonal_stats winter_days)) = 4"
    by (rule trans)
  have b: "set (map fst (seasonal_stats winter_days)) = {''summer'', ''winter''}"
    by (simp add: winter_days_stats)
  have "(''winter'', \<lparr>temperature_mean = Some 15, temperature_std = Some 5,
          temperature_min = Some 10, temperature_max = Some 20, temperature_count = 3\<rparr>)
        \<in> set (seasonal_stats winter_days)"
    by (simp add: winter_days_stats)
  from th [THEN conjunct2, THEN conjunct2, THEN conjunct2, rule_format, OF this]
  have c: "length (filter (\<lambda>r. season r = Some ''winter'' \<and> temperature r \<noteq> None) winter_days) = 3"
    by simp
  from a b c show ?thesis by (intro conjI)
qed

subsection \<open>The caller's frame\<close>

lemma arc_truncate:
  assumes "assign_rolling_columns df W = Inr out"
  shows "map observation.truncate out = df"
proof -
  from arc_window [OF assms] have W: "1 \<le> W" "W < 2 ^ 63"
    by simp_all
  from assms have "out = map (\<lambda>i. add_baseline (df ! i)
            (let m = calc_mean 1 (dropna (window_values (map temperature df) W i));
                 sd = calc_std 1 1 (dropna (window_values (map temperature df) W i))
             in (m, sd, fadd m (fmul (Some 2) sd), fsub m (fmul (Some 2) sd))))
          [0..<length df]"
    by (simp add: arc_Inr [OF W])
  then show ?thesis
    by (intro nth_equalityI) simp_all
qed

lemma cms_obj_eq:
  assumes "ref < length h" and "h ! ref = Observations rows"
  shows "calculate_moving_statistics_obj a ref W h =
     (case calculate_moving_statistics a rows W of
        Inl e \<Rightarrow>
          Some (Inl e, h @ [Observations (sort_index a rows), Observations (sort_index a rows)])
      | Inr out \<Rightarrow>
          Some (Inr (Suc (length h)), h @ [Observations (sort_index a rows), Baselined out]))"
  using assms
  by (simp add: calculate_moving_statistics_obj_def alloc_def nth_append
      calculate_moving_statistics_def list_update_append split: sum.splits)

lemma da_obj_eq:
  assumes "ref < length h" and "h ! ref = Baselined rows"
  shows "detect_anomalies_obj ref h =
     Some (length h, h @ [Flagged (detect_anomalies rows)])"
  using assms
  by (simp add: detect_anomalies_obj_def alloc_def nth_append list_update_append)

text \<open>
  Claim C10. \<^verbatim>\<open>calculate_moving_statistics\<close> and \<^verbatim>\<open>detect_anomalies\<close> write to a copy:
  every frame object that exists before the call, the caller's input among them, is the
  same after it, whether the call returns or raises. A result is a new object. Without
  its new columns the result of \<^verbatim>\<open>calculate_moving_statistics\<close> is the frame that
  \<^verbatim>\<open>sort_index\<close> made of the input, a permutation of the input rows with every field as it
  was, and the result of \<^verbatim>\<open>detect_anomalies\<close> is the input row by row.
\<close>

theorem input_immutability:
  assumes "ref < length h"
  shows "(h ! ref = Observations rows \<longrightarrow>
           (\<exists>res h'. calculate_moving_statistics_obj a ref W h = Some (res, h') \<and>
              length h \<le> length h' \<and> (\<forall>addr<length h. h' ! addr = h ! addr) \<and>
              (\<forall>new. res = Inr new \<longrightarrow>
                 length h \<le> new \<and> new < length h' \<and>
                 (\<exists>out. h' ! new = Baselined out \<and>
                    calculate_moving_statistics a rows W = Inr out \<and>
                    map observation.truncate out = sort_index a rows \<and>
                    (is_argsort a (map timestamp rows) \<longrightarrow>
                       mset (map observation.truncate out) = mset rows))))) \<and>
         (h ! ref = Baselined brows \<longrightarrow>
           (\<exists>new h'. detect_anomalies_obj ref h = Some (new, h') \<and>
              (\<forall>addr<length h. h' ! addr = h ! addr) \<and> length h \<le> new \<and> new < length h' \<and>
              h' ! new = Flagged (detect_anomalies brows) \<and>
              map baselined.truncate (detect_anomalies brows) = brows))"
proof (intro conjI impI)
  assume obj: "h ! ref = Observations rows"
  show "\<exists>res h'. calculate_moving_statistics_obj a ref W h = Some (res, h') \<and>
              length h \<le> length h' \<and> (\<forall>addr<length h. h' ! addr = h ! addr) \<and>
              (\<forall>new. res = Inr new \<longrightarrow>
                 length h \<le> new \<and> new < length h' \<and>
                 (\<exists>out. h' ! new = Baselined out \<and>
                    calculate_moving_statistics a rows W = Inr out \<and>
                    map observation.truncate out = sort_index a rows \<and>
                    (is_argsort a (map timestamp rows) \<longrightarrow>
                       mset (map observation.truncate out) = mset rows)))"
  proof (cases "calculate_moving_statistics a rows W")
    case (Inl e)
    then show ?thesis
      by (simp add: cms_obj_eq [OF assms obj] nth_append)
  next
    case (Inr out)
    then have tr: "map observation.truncate out = sort_index a rows"
      unfolding calculate_moving_statistics_def by (rule arc_truncate)
    have "mset (map observation.truncate out) = mset rows"
      if "is_argsort a (map timestamp rows)"
      using sort_index_mset [OF that] tr by (simp only:)
    then have ms: "is_argsort a (map timestamp rows) \<longrightarrow>
        mset (map observation.truncate out) = mset rows"
      by blast
    from Inr tr ms show ?thesis
      by (simp add: cms_obj_eq [OF assms obj] nth_append del: mset_map)
  qed
next
  assume obj: "h ! ref = Baselined brows"
  have "map baselined.truncate (detect_anomalies brows) = brows"
    by (intro nth_equalityI) (simp_all add: detect_anomalies_def add_anomaly_def baselined.defs)
  then show "\<exists>new h'. detect_anomalies_obj ref h = Some (new, h') \<and>
              (\<forall>addr<length h. h' ! addr = h ! addr) \<and> length h \<le> new \<and> new < length h' \<and>
              h' ! new = Flagged (detect_anomalies brows) \<and>
              map baselined.truncate (detect_anomalies brows) = brows"
    by (simp add: da_obj_eq [OF assms obj] nth_append)
qed

theorem input_immutability_witness:
  "(\<exists>res h'. calculate_moving_statistics_obj stable_argsort 0 3 [Observations two_days]
        = Some (res, h') \<and>
      h' ! 0 = Observations two_days \<and>
      (\<exists>new out. res = Inr new \<and> 1 \<le> new \<and> h' ! new = Baselined out \<and>
         mset (map observation.truncate out) = mset two_days)) \<and>
   (\<exists>res h'. calculate_moving_statistics_obj stable_argsort 0 0 [Observations two_days]
        = Some (res, h') \<and>
      h' ! 0 = Observations two_days \<and> res = Inl ValueError) \<and>
   (\<exists>new h'. detect_anomalies_obj 0 [Baselined [banded (Some 30) (Some 25) (Some 5)]]
        = Some (new, h') \<and>
      h' ! 0 = Baselined [banded (Some 30) (Some 25) (Some 5)] \<and> 1 \<le> new \<and>
      h' ! new = Flagged (detect_anomalies [banded (Some 30) (Some 25) (Some 5)]))"
proof -
  define h1 where "h1 = [Observations two_days]"
  define h2 where "h2 = [Baselined [banded (Some 30) (Some 25) (Some 5)]]"
  have r1: "0 < length h1" "h1 ! 0 = Observations two_days" "length h1 = 1"
    by (simp_all add: h1_def)
  have r2: "0 < length h2" "h2 ! 0 = Baselined [banded (Some 30) (Some 25) (Some 5)]"
    "length h2 = 1"
    by (simp_all add: h2_def)
  note s = is_argsort_stable [of "map timestamp two_days"]
  from input_immutability [OF r1(1), of two_days stable_argsort 3, THEN conjunct1, rule_format,
      OF r1(2)]
  obtain res h' where a: "calculate_moving_statistics_obj stable_argsort 0 3 h1 = Some (res, h')"
      "\<forall>addr<length h1. h' ! addr = h1 ! addr"
      "\<forall>new. res = Inr new \<longrightarrow>
                 length h1 \<le> new \<and> new < length h' \<and>
                 (\<exists>out. h' ! new = Baselined out \<and>
                    calculate_moving_statistics stable_argsort two_days 3 = Inr out \<and>
                    map observation.truncate out = sort_index stable_argsort two_days \<and>
                    (is_argsort stable_argsort (map timestamp two_days) \<longrightarrow>
                       mset (map observation.truncate out) = mset two_days))"
    by blast
  from cms_obj_eq [OF r1(1,2), of stable_argsort 3] a(1)
  have "res = Inr (Suc (length h1))"
    by (simp add: cms_two_days_3)
  with a(3) s obtain new out where b: "res = Inr new" "length h1 \<le> new"
      "h' ! new = Baselined out" "mset (map observation.truncate out) = mset two_days"
    by blast
  from a(2) r1 have "h' ! 0 = Observations two_days" by simp
  with a(1) b r1(3) have first:
    "\<exists>res h'. calculate_moving_statistics_obj stable_argsort 0 3 h1 = Some (res, h') \<and>
      h' ! 0 = Observations two_days \<and>
      (\<exists>new out. res = Inr new \<and> 1 \<le> new \<and> h' ! new = Baselined out \<and>
         mset (map observation.truncate out) = mset two_days)"
    by auto
  from input_immutability [OF r1(1), of two_days stable_argsort 0, THEN conjunct1, rule_format,
      OF r1(2)]
  obtain res0 h0 where z: "calculate_moving_statistics_obj stable_argsort 0 0 h1 = Some (res0, h0)"
      "\<forall>addr<length h1. h0 ! addr = h1 ! addr"
    by blast
  from cms_obj_eq [OF r1(1,2), of stable_argsort 0] z(1)
  have "res0 = Inl ValueError"
    by (simp add: calculate_moving_statistics_def assign_rolling_columns_def min_periods_def)
  moreover from z(2) r1 have "h0 ! 0 = Observations two_days" by simp
  ultimately have raised:
    "\<exists>res h'. calculate_moving_statistics_obj stable_argsort 0 0 h1 = Some (res, h') \<and>
      h' ! 0 = Observations two_days \<and> res = Inl ValueError"
    using z(1) by auto
  from input_immutability [OF r2(1), of _ _ _ "[banded (Some 30) (Some 25) (Some 5)]",
      THEN conjunct2, rule_format, OF r2(2)]
  obtain new2 h'' where c: "detect_anomalies_obj 0 h2 = Some (new2, h'')"
      "\<forall>addr<length h2. h'' ! addr = h2 ! addr" "length h2 \<le> new2"
      "h'' ! new2 = Flagged (detect_anomalies [banded (Some 30) (Some 25) (Some 5)])"
    by blast
  from c(2) r2 have "h'' ! 0 = Baselined [banded (Some 30) (Some 25) (Some 5)]" by simp
  with c r2(3) have second:
    "\<exists>new h'. detect_anomalies_obj 0 h2 = Some (new, h') \<and>
      h' ! 0 = Baselined [banded (Some 30) (Some 25) (Some 5)] \<and> 1 \<le> new \<and>
      h' ! new = Flagged (detect_anomalies [banded (Some 30) (Some 25) (Some 5)])"
    by auto
  from first raised second show ?thesis
    unfolding h1_def h2_def by (intro conjI)
qed

end
